theory Spec2Isabelle
  imports Complex_Main "HOL-Library.Sublist" "HOL-Library.Word"
begin

section \<open>Strings\<close>

text \<open>
  A string of the program is a list of characters, one \<^typ>\<open>char\<close> for each code unit
  below 256.  In that range the white space that \<^verbatim>\<open>String.prototype.trim\<close> strips is
  TAB, LF, VT, FF, CR, SPACE and NBSP.
\<close>

definition is_ws :: "char \<Rightarrow> bool" where
  "is_ws c = (of_char c \<in> set [9, 10, 11, 12, 13, 32, 160 :: nat])"

definition trim :: "string \<Rightarrow> string" where
  "trim s = rev (dropWhile is_ws (rev (dropWhile is_ws s)))"

definition nl :: char where
  "nl = CHR 0x0A"

text \<open>\<^verbatim>\<open>String(n)\<close> for an integer.\<close>

fun show_nat :: "nat \<Rightarrow> string" where
  "show_nat n =
     (if n < 10 then [char_of (48 + n)]
      else show_nat (n div 10) @ [char_of (48 + n mod 10)])"

declare show_nat.simps [simp del]

definition show_int :: "int \<Rightarrow> string" where
  "show_int i = (if i < 0 then CHR ''-'' # show_nat (nat (- i)) else show_nat (nat i))"


section \<open>Buffers and the text decoded from them\<close>

text \<open>
  The standard output of the agent arrives as Buffers, lists of bytes, and each is
  decoded on its own by \<^verbatim>\<open>chunk.toString()\<close>, as UTF-8.  The decoded text can hold any
  code unit, U+FFFD among them, so the text of the standard output is a list of
  UTF-16 code units.
\<close>

type_synonym byte = "8 word"

type_synonym ustring = "nat list"

definition LF :: nat where
  "LF = 0x0A"

definition REPLACEMENT :: nat where
  "REPLACEMENT = 0xFFFD"

text \<open>The code units of a code point: itself, or a surrogate pair above the basic plane.\<close>

definition units :: "nat \<Rightarrow> ustring" where
  "units cp =
     (if cp < 0x10000 then [cp]
      else [0xD800 + (cp - 0x10000) div 0x400, 0xDC00 + (cp - 0x10000) mod 0x400])"

text \<open>The low \<open>n\<close> bits of a byte.\<close>

definition low :: "nat \<Rightarrow> byte \<Rightarrow> nat" where
  "low n b = unat b mod 2 ^ n"

definition continuation :: "byte \<Rightarrow> bool" where
  "continuation b = (0x80 \<le> b \<and> b \<le> 0xBF)"

text \<open>
  The range of the byte after a lead byte: narrower after E0 and F0 (no overlong
  form), after ED (no surrogate) and after F4 (nothing above U+10FFFF).
\<close>

definition first_lower :: "byte \<Rightarrow> byte" where
  "first_lower b = (if b = 0xE0 then 0xA0 else if b = 0xF0 then 0x90 else 0x80)"

definition first_upper :: "byte \<Rightarrow> byte" where
  "first_upper b = (if b = 0xED then 0x9F else if b = 0xF4 then 0x8F else 0xBF)"

text \<open>
  \<^verbatim>\<open>Buffer.prototype.toString()\<close>: the UTF-8 decoder.  A byte that cannot start a
  character, and a character that is cut short, by a byte that cannot continue it or
  by the end of the buffer, each become one U+FFFD; the byte that cut the character
  short is decoded again as the start of the next one.  Nothing is carried over to
  the next buffer.
\<close>

fun toString :: "byte list \<Rightarrow> ustring" where
  "toString [] = []"
| "toString (b # bs) =
     (if b < 0x80 then unat b # toString bs
      else if 0xC2 \<le> b \<and> b \<le> 0xDF then
        (case bs of
           [] \<Rightarrow> [REPLACEMENT]
         | c1 # r1 \<Rightarrow>
             if continuation c1 then units (low 5 b * 64 + low 6 c1) @ toString r1
             else REPLACEMENT # toString bs)
      else if 0xE0 \<le> b \<and> b \<le> 0xEF then
        (case bs of
           [] \<Rightarrow> [REPLACEMENT]
         | c1 # r1 \<Rightarrow>
             if first_lower b \<le> c1 \<and> c1 \<le> first_upper b then
               (case r1 of
                  [] \<Rightarrow> [REPLACEMENT]
                | c2 # r2 \<Rightarrow>
                    if continuation c2
                    then units ((low 4 b * 64 + low 6 c1) * 64 + low 6 c2) @ toString r2
                    else REPLACEMENT # toString r1)
             else REPLACEMENT # toString bs)
      else if 0xF0 \<le> b \<and> b \<le> 0xF4 then
        (case bs of
           [] \<Rightarrow> [REPLACEMENT]
         | c1 # r1 \<Rightarrow>
             if first_lower b \<le> c1 \<and> c1 \<le> first_upper b then
               (case r1 of
                  [] \<Rightarrow> [REPLACEMENT]
                | c2 # r2 \<Rightarrow>
                    if continuation c2 then
                      (case r2 of
                         [] \<Rightarrow> [REPLACEMENT]
                       | c3 # r3 \<Rightarrow>
                           if continuation c3
                           then units (((low 3 b * 64 + low 6 c1) * 64 + low 6 c2) * 64 + low 6 c3)
                                  @ toString r3
                           else REPLACEMENT # toString r2)
                    else REPLACEMENT # toString r1)
             else REPLACEMENT # toString bs)
      else REPLACEMENT # toString bs)"

text \<open>The white space that \<^verbatim>\<open>String.prototype.trim\<close> strips, over all code units.\<close>

definition is_space :: "nat \<Rightarrow> bool" where
  "is_space u =
     (u \<in> set [0x09, 0x0A, 0x0B, 0x0C, 0x0D, 0x20, 0xA0, 0x1680, 0x2028, 0x2029, 0x202F,
                0x205F, 0x3000, 0xFEFF]
      \<or> (0x2000 \<le> u \<and> u \<le> 0x200A))"

definition trim_units :: "ustring \<Rightarrow> ustring" where
  "trim_units s = rev (dropWhile is_space (rev (dropWhile is_space s)))"

text \<open>\<^verbatim>\<open>s.split('\n')\<close>: the segments between newlines; never the empty array.\<close>

fun split_nl :: "ustring \<Rightarrow> ustring list" where
  "split_nl [] = [[]]"
| "split_nl (c # cs) =
     (if c = LF then [] # split_nl cs
      else (case split_nl cs of [] \<Rightarrow> [[c]] | l # ls \<Rightarrow> (c # l) # ls))"

text \<open>
  A text of the program without a character above U+007F, as the code units of a
  decoded text, and as the bytes that encode it.
\<close>

definition text_of :: "string \<Rightarrow> ustring" where
  "text_of s = map of_char s"

definition bytes_of :: "string \<Rightarrow> byte list" where
  "bytes_of s = map (\<lambda>c. of_nat (of_char c)) s"


section \<open>The agent provider: \<^verbatim>\<open>claudeProvider.runAgent\<close>\<close>

subsection \<open>Values of the host language\<close>

text \<open>
  What \<^verbatim>\<open>JSON.parse\<close> returns, and \<^verbatim>\<open>undefined\<close> for a property that is not there.
  An object is the association list of its own properties.  A number is its value.
\<close>

datatype jsval =
    JUndefined
  | JNull
  | JBool bool
  | JNum real
  | JStr string
  | JArr "jsval list"
  | JObj "(string \<times> jsval) list"

fun truthy :: "jsval \<Rightarrow> bool" where
  "truthy JUndefined = False"
| "truthy JNull = False"
| "truthy (JBool b) = b"
| "truthy (JNum r) = (r \<noteq> 0)"
| "truthy (JStr s) = (s \<noteq> [])"
| "truthy (JArr xs) = True"
| "truthy (JObj kvs) = True"

text \<open>Reading a property of \<^verbatim>\<open>null\<close> or \<^verbatim>\<open>undefined\<close> raises a TypeError.\<close>

fun nullish :: "jsval \<Rightarrow> bool" where
  "nullish JUndefined = True"
| "nullish JNull = True"
| "nullish v = False"

text \<open>
  \<^verbatim>\<open>v.k\<close> for a value that is not nullish and one of the keys the parser reads
  (type, message, content, name, input, text, result): no primitive, array or
  prototype has any of them.
\<close>

fun get :: "jsval \<Rightarrow> string \<Rightarrow> jsval" where
  "get (JObj kvs) k = (case map_of kvs k of None \<Rightarrow> JUndefined | Some v \<Rightarrow> v)"
| "get v k = JUndefined"

datatype callback = OnToolUse jsval jsval | OnText jsval

text \<open>
  The parts of the platform the parser calls: \<^verbatim>\<open>JSON.parse\<close> (\<open>None\<close> when it raises a
  SyntaxError), the operator \<^verbatim>\<open>+\<close> on operands that are not both strings, and whether
  a callback of the caller returns or raises.
\<close>

record host =
  json_parse :: "ustring \<Rightarrow> jsval option"
  plus_dyn :: "jsval \<Rightarrow> jsval \<Rightarrow> jsval"
  returns :: "callback \<Rightarrow> bool"

definition js_plus :: "host \<Rightarrow> jsval \<Rightarrow> jsval \<Rightarrow> jsval" where
  "js_plus h a b =
     (case a of
        JStr x \<Rightarrow> (case b of JStr y \<Rightarrow> JStr (x @ y) | _ \<Rightarrow> plus_dyn h a b)
      | _ \<Rightarrow> plus_dyn h a b)"

subsection \<open>The stream parser\<close>

record pstate =
  finalResult :: jsval
  lineBuf :: ustring
  called :: "callback list"
  settled :: "(string + jsval) option"

definition start :: pstate where
  "start = \<lparr>finalResult = JStr [], lineBuf = [], called = [], settled = None\<rparr>"

text \<open>
  The loop over \<^verbatim>\<open>event.message.content\<close>.  An exception (a nullish block, a callback
  that raises) leaves the loop for the \<^verbatim>\<open>catch\<close> of \<^verbatim>\<open>processLine\<close>, which keeps what
  was done so far.
\<close>

fun each_block :: "host \<Rightarrow> jsval list \<Rightarrow> pstate \<Rightarrow> pstate" where
  "each_block h [] st = st"
| "each_block h (block # rest) st =
     (if nullish block then st
      else if get block ''type'' = JStr ''tool_use'' then
        (let c = OnToolUse (get block ''name'')
                   (if truthy (get block ''input'') then get block ''input'' else JObj []);
             st1 = st\<lparr>called := called st @ [c]\<rparr>
         in if returns h c then each_block h rest st1 else st1)
      else if get block ''type'' = JStr ''text'' \<and> truthy (get block ''text'') then
        (let st1 = st\<lparr>finalResult := js_plus h (finalResult st) (get block ''text'')\<rparr>;
             c = OnText (get block ''text'');
             st2 = st1\<lparr>called := called st1 @ [c]\<rparr>
         in if returns h c then each_block h rest st2 else st2)
      else each_block h rest st)"

text \<open>\<^verbatim>\<open>event.message?.content\<close>, for an event that is not nullish.\<close>

definition message_content :: "jsval \<Rightarrow> jsval" where
  "message_content event =
     (let m = get event ''message'' in if nullish m then JUndefined else get m ''content'')"

text \<open>
  A string for content is iterated character by character and no character has a
  \<^verbatim>\<open>type\<close>; any other truthy content that is not an array is not iterable, and the
  TypeError is caught.  Both leave the state as it is.
\<close>

definition processLine :: "host \<Rightarrow> ustring \<Rightarrow> pstate \<Rightarrow> pstate" where
  "processLine h line st =
     (if trim_units line = [] then st
      else case json_parse h line of
        None \<Rightarrow> st
      | Some event \<Rightarrow>
          if nullish event then st
          else if get event ''type'' = JStr ''assistant'' \<and> truthy (message_content event) then
            (case message_content event of JArr blocks \<Rightarrow> each_block h blocks st | _ \<Rightarrow> st)
          else if get event ''type'' = JStr ''result'' then
            (if truthy (get event ''result'')
             then st\<lparr>finalResult := get event ''result''\<rparr> else st)
          else st)"

definition process_lines :: "host \<Rightarrow> ustring list \<Rightarrow> pstate \<Rightarrow> pstate" where
  "process_lines h ls st = foldl (\<lambda>s line. processLine h line s) st ls"

text \<open>\<^verbatim>\<open>lines.pop() || ''\<close>\<close>

definition pop_or_empty :: "ustring list \<Rightarrow> ustring" where
  "pop_or_empty ls = (if ls = [] then [] else last ls)"

text \<open>The handler of \<^verbatim>\<open>data\<close> on the standard output: the chunk is a Buffer.\<close>

definition on_stdout :: "host \<Rightarrow> byte list \<Rightarrow> pstate \<Rightarrow> pstate" where
  "on_stdout h chunk st =
     (let buf = lineBuf st @ toString chunk;
          lines = split_nl buf
      in process_lines h (butlast lines) (st\<lparr>lineBuf := pop_or_empty lines\<rparr>))"

text \<open>
  The handler of \<^verbatim>\<open>data\<close> on the standard error decodes its chunk and uses the text
  of that chunk alone; the chunk is given here as the text decoded from it.
\<close>

definition on_stderr :: "string \<Rightarrow> pstate \<Rightarrow> pstate" where
  "on_stderr chunk st =
     (let text = trim chunk
      in if text \<noteq> [] then st\<lparr>called := called st @ [OnText (JStr text)]\<rparr> else st)"

text \<open>A promise is settled once: a later \<^verbatim>\<open>resolve\<close> or \<^verbatim>\<open>reject\<close> is ignored.\<close>

definition settle :: "string + jsval \<Rightarrow> pstate \<Rightarrow> pstate" where
  "settle r st = (case settled st of None \<Rightarrow> st\<lparr>settled := Some r\<rparr> | Some _ \<Rightarrow> st)"

definition show_code :: "int option \<Rightarrow> string" where
  "show_code code = (case code of None \<Rightarrow> ''null'' | Some n \<Rightarrow> show_int n)"

definition on_close :: "host \<Rightarrow> int option \<Rightarrow> pstate \<Rightarrow> pstate" where
  "on_close h code st =
     (let st1 = (if trim_units (lineBuf st) \<noteq> [] then processLine h (lineBuf st) st else st)
      in if code \<noteq> Some 0
         then settle (Inl (''Claude exited with code '' @ show_code code)) st1
         else settle (Inr (finalResult st1)) st1)"

datatype proc_event = Stdout "byte list" | Stderr string | ProcError string | Close "int option"

fun on_event :: "host \<Rightarrow> pstate \<Rightarrow> proc_event \<Rightarrow> pstate" where
  "on_event h st (Stdout chunk) = on_stdout h chunk st"
| "on_event h st (Stderr chunk) = on_stderr chunk st"
| "on_event h st (ProcError msg) = settle (Inl msg) st"
| "on_event h st (Close code) = on_close h code st"

definition runAgent :: "host \<Rightarrow> proc_event list \<Rightarrow> pstate" where
  "runAgent h evs = foldl (on_event h) start evs"


subsection \<open>A tool-use record and a host that reads it\<close>

definition write_record :: string where
  \<open>write_record = ''{"type":"assistant","message":{"content":[{"type":"tool_use","name":"Write","input":{"file_path":"a.ts"}}]}}''\<close>

definition write_event :: jsval where
  "write_event =
     JObj [(''type'', JStr ''assistant''),
           (''message'', JObj [(''content'',
              JArr [JObj [(''type'', JStr ''tool_use''), (''name'', JStr ''Write''),
                          (''input'', JObj [(''file_path'', JStr ''a.ts'')])]])])]"

definition demo_host :: host where
  "demo_host =
     \<lparr>json_parse = (\<lambda>s. if s = text_of write_record then Some write_event else None),
      plus_dyn = (\<lambda>a b. JUndefined),
      returns = (\<lambda>c. True)\<rparr>"

subsection \<open>A text record around a character of two bytes\<close>

text \<open>
  The record \<^verbatim>\<open>{"type":"assistant","message":{"content":[{"type":"text","text":"X"}]}}\<close>
  up to the character \<^verbatim>\<open>X\<close> and after it.
\<close>

definition accent_head :: string where
  \<open>accent_head = ''{"type":"assistant","message":{"content":[{"type":"text","text":"''\<close>

definition accent_tail :: string where
  \<open>accent_tail = ''"}]}}''\<close>

subsection \<open>The parser on decoded text\<close>

text \<open>What the handler of the standard output does with the text it has decoded.\<close>

definition feed :: "host \<Rightarrow> ustring \<Rightarrow> pstate \<Rightarrow> pstate" where
  "feed h t st =
     (process_lines h (butlast (split_nl (lineBuf st @ t))) st)
       \<lparr>lineBuf := last (split_nl (lineBuf st @ t))\<rparr>"

text \<open>The state after the process has closed with \<open>code\<close>, had it written the text \<open>s\<close>.\<close>

definition closed_on :: "host \<Rightarrow> ustring \<Rightarrow> int option \<Rightarrow> pstate" where
  "closed_on h s code =
     (let fin = process_lines h (split_nl s) start
      in fin\<lparr>lineBuf := last (split_nl s),
              settled := Some (if code \<noteq> Some 0
                               then Inl (''Claude exited with code '' @ show_code code)
                               else Inr (finalResult fin))\<rparr>)"

definition ascii :: "string \<Rightarrow> bool" where
  "ascii s = list_all (\<lambda>c. of_char c < (0x80 :: nat)) s"


section \<open>The worker: result extraction\<close>

text \<open>
  The change description is cut out of the agent's result by
  \<^verbatim>\<open>claudeOutput.match(/---PR_BODY_START---\n([\s\S]*?)\n---PR_BODY_END---/)\<close>.
  The pattern is a literal, a lazy group that takes any character, and a literal.
  The match starts at the first place where the first literal occurs (if no second
  literal follows that place, none follows a later one), and the lazy group ends at
  the first place after it where the second literal occurs.
\<close>

definition PR_BODY_START :: string where
  "PR_BODY_START = ''---PR_BODY_START---''"

definition PR_BODY_END :: string where
  "PR_BODY_END = ''---PR_BODY_END---''"

text \<open>The text before and the text after the first occurrence of a literal.\<close>

fun find_sub :: "string \<Rightarrow> string \<Rightarrow> (string \<times> string) option" where
  "find_sub pat [] = (if pat = [] then Some ([], []) else None)"
| "find_sub pat (c # cs) =
     (if prefix pat (c # cs) then Some ([], drop (length pat) (c # cs))
      else (case find_sub pat cs of
              None \<Rightarrow> None
            | Some (before, after) \<Rightarrow> Some (c # before, after)))"

text \<open>Group 1 of the match, \<open>None\<close> when the pattern does not match.\<close>

definition match_pr_body :: "string \<Rightarrow> string option" where
  "match_pr_body out =
     (case find_sub (PR_BODY_START @ [nl]) out of
        None \<Rightarrow> None
      | Some (before, rest) \<Rightarrow>
          (case find_sub (nl # PR_BODY_END) rest of
             None \<Rightarrow> None
           | Some (body, after) \<Rightarrow> Some body))"

text \<open>
  \<^verbatim>\<open>prBodyMatch?.[1]?.trim() || null\<close>, then the default when that is null.
  \<^verbatim>\<open>isDirect\<close> is \<^verbatim>\<open>issueNo == null\<close>.
\<close>

definition default_pr_body :: "int option \<Rightarrow> string" where
  "default_pr_body issue =
     (case issue of
        None \<Rightarrow> ''_Auto-generated by Vampire_''
      | Some n \<Rightarrow> ''Resolves #'' @ show_int n @ [nl, nl] @ ''_Auto-generated by Vampire_'')"

definition extract_pr_body :: "int option \<Rightarrow> string \<Rightarrow> string" where
  "extract_pr_body issue claudeOutput =
     (let prBody = (case match_pr_body claudeOutput of
                      None \<Rightarrow> None
                    | Some body \<Rightarrow> if trim body = [] then None else Some (trim body))
      in case prBody of
           None \<Rightarrow> default_pr_body issue
         | Some b \<Rightarrow> b)"


section \<open>The live log stream: \<^verbatim>\<open>GET /api/jobs/:jobId/log\<close>\<close>

text \<open>
  The response of the route: the status line once written, the texts written to the
  stream in order, whether the stream has been ended, and the topics of the log bus on
  which the handlers \<^verbatim>\<open>onLog\<close> and \<^verbatim>\<open>onDone\<close> are registered.  \<^verbatim>\<open>JSON.stringify\<close> of a
  text is a parameter.  A write to an ended stream adds nothing.
\<close>

record job_row =
  row_id :: int
  row_status :: string

record sse =
  head :: "nat option"
  writes :: "string list"
  ended :: bool
  on_log :: "string option"
  on_done :: "string option"

datatype route_reply = NotFound | Streaming sse

definition sse_write :: "string \<Rightarrow> sse \<Rightarrow> sse" where
  "sse_write s r = (if ended r then r else r\<lparr>writes := writes r @ [s]\<rparr>)"

definition log_topic :: "int \<Rightarrow> string" where
  "log_topic jobId = ''job:'' @ show_int jobId"

definition done_topic :: "int \<Rightarrow> string" where
  "done_topic jobId = ''job:'' @ show_int jobId @ '':done''"

definition log_route :: "job_row option \<Rightarrow> route_reply" where
  "log_route found =
     (case found of
        None \<Rightarrow> NotFound
      | Some job \<Rightarrow>
          (let r = \<lparr>head = Some 200, writes = [], ended = False, on_log = None, on_done = None\<rparr>
           in if row_status job \<noteq> ''running''
              then Streaming ((sse_write (''event: done\<newline>data: '' @ row_status job @ ''\<newline>\<newline>'') r)
                               \<lparr>ended := True\<rparr>)
              else Streaming (r\<lparr>on_log := Some (log_topic (row_id job)),
                                on_done := Some (done_topic (row_id job))\<rparr>)))"

text \<open>
  What follows on the connection: an emission of the log bus on a topic, or the
  client closing the request.  \<^verbatim>\<open>onDone\<close> is registered with \<^verbatim>\<open>once\<close>.
\<close>

datatype bus_event = Emitted string string | ClientClosed

fun deliver :: "(string \<Rightarrow> string) \<Rightarrow> sse \<Rightarrow> bus_event \<Rightarrow> sse" where
  "deliver stringify r (Emitted topic payload) =
     (let r1 = (if on_log r = Some topic then sse_write (''data: '' @ stringify payload @ ''\<newline>\<newline>'') r else r)
      in if on_done r1 = Some topic
         then (sse_write (''event: done\<newline>data: '' @ (if payload = [] then ''done'' else payload)
                          @ ''\<newline>\<newline>'') r1)
                \<lparr>ended := True, on_done := None\<rparr>
         else r1)"
| "deliver stringify r ClientClosed = r\<lparr>on_log := None, on_done := None\<rparr>"

text \<open>A frame that carries a log line: the ones \<^verbatim>\<open>onLog\<close> writes start with the data field.\<close>

definition is_data_frame :: "string \<Rightarrow> bool" where
  "is_data_frame w = prefix ''data: '' w"


section \<open>The worker: \<^verbatim>\<open>runWorker\<close>\<close>

subsection \<open>Jobs, projects and the world outside\<close>

record job =
  j_id :: int
  j_issueNo :: "int option"
  j_type :: string
  j_description :: "string option"
  j_issueTitle :: "string option"

record project =
  p_baseBranch :: string
  p_path :: string
  p_prompt :: "string option"
  p_provider :: "string option"

record followUp =
  f_branch :: string
  f_message :: string
  f_previousDiff :: "string option"

record worker_result =
  r_status :: string
  r_branch :: "string option"
  r_prBody :: "string option"
  r_prTitle :: "string option"
  r_diff :: "string option"

text \<open>
  What an awaited call comes back with: a subprocess, a file operation or a database
  write either completes (with its standard output or its content) or raises an error
  with a message; a read of the job's status finds a status, finds no job, or raises.
\<close>

datatype result = Done string | Failed string

datatype status_read = Found string | Missing | ReadFailed

text \<open>What the provider reports through the callbacks while the agent runs.\<close>

datatype agent_event = ToolUse string "(string \<times> string) list" | TextOut string

text \<open>
  The environment answers the interactions of a run in the order in which they are
  made: the \<open>n\<close>-th interaction gets the answer at \<open>n\<close>.  It also gives the clock, the
  temporary directory and \<^verbatim>\<open>JSON.stringify\<close> of a tool input.
\<close>

record env =
  command :: "nat \<Rightarrow> result"
  status_at :: "nat \<Rightarrow> status_read"
  agent_at :: "nat \<Rightarrow> agent_event list \<times> result"
  exists_at :: "nat \<Rightarrow> bool"
  now_iso :: string
  now_ms :: nat
  tmpdir :: string
  stringify :: "(string \<times> string) list \<Rightarrow> string"

text \<open>
  The fields of the last database write.  The handler of a fulfilled worker writes the
  artifacts (each one \<^verbatim>\<open>null\<close> when absent), the handler of a rejected one does not
  name them.
\<close>

record artifacts =
  a_branch :: "string option"
  a_prBody :: "string option"
  a_prTitle :: "string option"
  a_diff :: "string option"

record final_data =
  fd_status :: string
  fd_log :: string
  fd_artifacts :: "artifacts option"

text \<open>
  A read of the status is made either at a cooperative checkpoint of the worker or by
  the handlers that settle the job.
\<close>

datatype site = Checkpoint | Finalization

datatype interaction =
    Exec string "string list" "string option" result
  | StatusRead site status_read
  | TitleUpdate string result
  | FinalUpdate final_data result
  | AgentRun string string "agent_event list" result
  | Rm string result
  | ExistsSync string bool
  | ReadFile string result

text \<open>
  The state of a run: the interactions so far with their answers, the texts passed to
  \<^verbatim>\<open>log\<close>, the variable \<^verbatim>\<open>cloneDir\<close>, what was emitted on the log bus, and the
  workspace directories that are on disk (a successful clone puts its directory
  there, a successful removal takes it away).
\<close>

record world =
  trace :: "interaction list"
  logged :: "string list"
  cloneDir :: "string option"
  published :: "(string \<times> string) list"
  dirs :: "string set"

definition fresh :: world where
  "fresh = \<lparr>trace = [], logged = [], cloneDir = None, published = [], dirs = {}\<rparr>"

text \<open>\<^verbatim>\<open>logBuffer\<close>: every logged text followed by a newline.\<close>

definition logBuffer :: "world \<Rightarrow> string" where
  "logBuffer w = concat (map (\<lambda>t. t @ [nl]) (logged w))"

subsection \<open>Awaited calls, exceptions and sequencing\<close>

datatype 'a outcome = Value 'a | Throw string

type_synonym 'a prog = "world \<Rightarrow> 'a outcome \<times> world"

definition ret :: "'a \<Rightarrow> 'a prog" where
  "ret x w = (Value x, w)"

definition throw :: "string \<Rightarrow> 'a prog" where
  "throw msg w = (Throw msg, w)"

definition bind :: "'a prog \<Rightarrow> ('a \<Rightarrow> 'b prog) \<Rightarrow> 'b prog" where
  "bind m f w = (case m w of (Value x, w1) \<Rightarrow> f x w1 | (Throw e, w1) \<Rightarrow> (Throw e, w1))"

definition andThen :: "'a prog \<Rightarrow> 'b prog \<Rightarrow> 'b prog" where
  "andThen m n = bind m (\<lambda>_. n)"

fun steps :: "unit prog list \<Rightarrow> unit prog" where
  "steps [] = ret ()"
| "steps (m # ms) = andThen m (steps ms)"

text \<open>\<^verbatim>\<open>try { m } catch (_) {}\<close>\<close>

definition swallow :: "'a prog \<Rightarrow> unit prog" where
  "swallow m w = (case m w of (Value x, w1) \<Rightarrow> (Value (), w1) | (Throw e, w1) \<Rightarrow> (Value (), w1))"

definition tick :: "world \<Rightarrow> nat" where
  "tick w = length (trace w)"

definition log_line :: "job \<Rightarrow> string \<Rightarrow> unit prog" where
  "log_line job t w =
     (Value (), w\<lparr>logged := logged w @ [t],
                  published := published w @ [(log_topic (j_id job), t @ [nl])]\<rparr>)"

definition logs :: "job \<Rightarrow> string list \<Rightarrow> unit prog" where
  "logs job ts = steps (map (log_line job) ts)"

text \<open>\<^verbatim>\<open>exec\<close>: the trimmed standard output, or the error of the command.\<close>

definition exec :: "env \<Rightarrow> string \<Rightarrow> string list \<Rightarrow> string option \<Rightarrow> string prog" where
  "exec e cmd args cwd w =
     (let r = command e (tick w);
          w1 = w\<lparr>trace := trace w @ [Exec cmd args cwd r]\<rparr>
      in case r of Done out \<Rightarrow> (Value (trim out), w1) | Failed msg \<Rightarrow> (Throw msg, w1))"

definition isCancelled :: "env \<Rightarrow> site \<Rightarrow> bool prog" where
  "isCancelled e s w =
     (let r = status_at e (tick w)
      in (Value (r = Found ''cancelled''), w\<lparr>trace := trace w @ [StatusRead s r]\<rparr>))"

text \<open>\<^verbatim>\<open>if (await isCancelled(prisma, job.id)) throw new Error('cancelled')\<close>\<close>

definition checkpoint :: "env \<Rightarrow> unit prog" where
  "checkpoint e = bind (isCancelled e Checkpoint) (\<lambda>c. if c then throw ''cancelled'' else ret ())"

definition update_title :: "env \<Rightarrow> string \<Rightarrow> unit prog" where
  "update_title e title w =
     (let r = command e (tick w);
          w1 = w\<lparr>trace := trace w @ [TitleUpdate title r]\<rparr>
      in case r of Done out \<Rightarrow> (Value (), w1) | Failed msg \<Rightarrow> (Throw msg, w1))"

definition update_final :: "env \<Rightarrow> final_data \<Rightarrow> unit prog" where
  "update_final e d w =
     (let r = command e (tick w);
          w1 = w\<lparr>trace := trace w @ [FinalUpdate d r]\<rparr>
      in case r of Done out \<Rightarrow> (Value (), w1) | Failed msg \<Rightarrow> (Throw msg, w1))"

definition existsSync :: "env \<Rightarrow> string \<Rightarrow> bool prog" where
  "existsSync e p w =
     (let b = exists_at e (tick w) in (Value b, w\<lparr>trace := trace w @ [ExistsSync p b]\<rparr>))"

definition readFileSync :: "env \<Rightarrow> string \<Rightarrow> string prog" where
  "readFileSync e p w =
     (let r = command e (tick w);
          w1 = w\<lparr>trace := trace w @ [ReadFile p r]\<rparr>
      in case r of Done out \<Rightarrow> (Value out, w1) | Failed msg \<Rightarrow> (Throw msg, w1))"

text \<open>\<^verbatim>\<open>rm(dir, { recursive: true, force: true })\<close>\<close>

definition rm :: "env \<Rightarrow> string \<Rightarrow> unit prog" where
  "rm e d w =
     (let r = command e (tick w);
          w1 = w\<lparr>trace := trace w @ [Rm d r]\<rparr>
      in case r of
           Done out \<Rightarrow> (Value (), w1\<lparr>dirs := dirs w1 - {d}\<rparr>)
         | Failed msg \<Rightarrow> (Throw msg, w1))"

text \<open>\<^verbatim>\<open>git clone\<close> into a directory: an \<^verbatim>\<open>exec\<close> that, when it completes, has made it.\<close>

definition clone :: "env \<Rightarrow> string list \<Rightarrow> string \<Rightarrow> string prog" where
  "clone e args d w =
     (case exec e ''git'' args None w of
        (Value out, w1) \<Rightarrow> (Value out, w1\<lparr>dirs := insert d (dirs w1)\<rparr>)
      | (Throw msg, w1) \<Rightarrow> (Throw msg, w1))"

subsection \<open>Texts\<close>

text \<open>
  The three glyphs of the log and the prompts that lie outside the characters of a
  string here (U+2500, U+2014, U+25B8) are written as their UTF-8 bytes.  Their length
  is never taken.
\<close>

definition hbar :: string where
  "hbar = [CHR 0xE2, CHR 0x94, CHR 0x80]"

definition emdash :: string where
  "emdash = [CHR 0xE2, CHR 0x80, CHR 0x94]"

definition tri :: string where
  "tri = [CHR 0xE2, CHR 0x96, CHR 0xB8]"

definition rule40 :: string where
  "rule40 = concat (replicate 40 hbar)"

definition banner40 :: string where
  "banner40 = replicate 40 CHR ''=''"

definition heading :: "string \<Rightarrow> string" where
  "heading t = hbar @ hbar @ '' '' @ t @ '' '' @ hbar @ hbar"

definition squote :: string where
  "squote = [CHR 0x27]"

definition dquote :: string where
  "dquote = [CHR 0x22]"

definition backquote :: string where
  "backquote = [CHR 0x60]"

text \<open>The lines of a multi-line template, joined by newlines.\<close>

fun join_lines :: "string list \<Rightarrow> string" where
  "join_lines [] = []"
| "join_lines [l] = l"
| "join_lines (l # ls) = l @ [nl] @ join_lines ls"

text \<open>\<^verbatim>\<open>x || d\<close> for a string that may be null.\<close>

definition or_else :: "string option \<Rightarrow> string \<Rightarrow> string" where
  "or_else x d = (case x of None \<Rightarrow> d | Some s \<Rightarrow> if s = [] then d else s)"

text \<open>\<^verbatim>\<open>x || null\<close>\<close>

definition or_null :: "string option \<Rightarrow> string option" where
  "or_null x = (case x of None \<Rightarrow> None | Some s \<Rightarrow> if s = [] then None else Some s)"

definition given :: "string option \<Rightarrow> bool" where
  "given x = (or_null x \<noteq> None)"

text \<open>\<^verbatim>\<open>s.replace('T', ' ')\<close>: the first occurrence only.\<close>

fun replace_first :: "char \<Rightarrow> char \<Rightarrow> string \<Rightarrow> string" where
  "replace_first a b [] = []"
| "replace_first a b (c # cs) = (if c = a then b # cs else c # replace_first a b cs)"

text \<open>\<^verbatim>\<open>text.replace(/\n$/, '')\<close>\<close>

definition chomp :: "string \<Rightarrow> string" where
  "chomp s = (if s \<noteq> [] \<and> last s = nl then butlast s else s)"

text \<open>\<^verbatim>\<open>join\<close> of path segments that need no normalisation.\<close>

definition join_path :: "string \<Rightarrow> string \<Rightarrow> string" where
  "join_path a b = a @ ''/'' @ b"

definition MAX_RETRY :: nat where
  "MAX_RETRY = 2"

definition isDirect :: "job \<Rightarrow> bool" where
  "isDirect job = (j_issueNo job = None)"

text \<open>\<^verbatim>\<open>String(issueNo)\<close>, where the job has an issue number.\<close>

definition issue_str :: "job \<Rightarrow> string" where
  "issue_str job = (case j_issueNo job of None \<Rightarrow> ''null'' | Some n \<Rightarrow> show_int n)"

definition taskRef :: "job \<Rightarrow> string \<Rightarrow> string" where
  "taskRef job issueTitle =
     (if isDirect job then ''Task: '' @ issueTitle
      else ''GitHub Issue #'' @ issue_str job @ '': '' @ issueTitle)"

definition project_rules :: "project \<Rightarrow> string" where
  "project_rules project =
     (if given (p_prompt project)
      then [nl, nl] @ heading ''Project rules'' @ [nl] @ or_else (p_prompt project) []
      else [])"

definition first_prompt :: "job \<Rightarrow> project \<Rightarrow> followUp option \<Rightarrow> string \<Rightarrow> string \<Rightarrow> string \<Rightarrow> string" where
  "first_prompt job project fu issueTitle issueBody branchName =
     (case fu of
        Some f \<Rightarrow>
          join_lines
            [taskRef job issueTitle,
             [],
             heading ''Previous work'',
             ''Code was previously modified for this ''
               @ (if isDirect job then ''task'' else ''issue'')
               @ '' and pushed to branch '' @ branchName @ ''.'',
             (if given (f_previousDiff f)
              then [nl] @ ''Previous changes (diff):'' @ [nl]
                     @ take 3000 (or_else (f_previousDiff f) []) @ [nl]
              else []),
             [],
             heading ''Feedback / Change request'',
             f_message f,
             [],
             heading ''Instructions'',
             ''Apply the feedback above by modifying the code.'',
             ''You must build on top of the existing changes on this branch.'',
             ''Do not just analyze '' @ emdash @ '' you must actually edit files.'']
      | None \<Rightarrow>
          if isDirect job then
            join_lines
              [''Task: '' @ issueTitle,
               [],
               issueBody,
               [],
               heading ''Instructions'',
               ''You must write code and modify files to complete the task above.'',
               ''Do not just analyze or explain '' @ emdash @ '' actually create or edit files.'',
               ''If the task is ambiguous, use your best judgment to implement a solution.'']
          else
            join_lines
              [''GitHub Issue #'' @ issue_str job @ '': '' @ issueTitle,
               [],
               issueBody,
               [],
               heading ''Instructions'',
               ''You must write code and modify files to resolve the issue above.'',
               ''Do not just analyze or explain '' @ emdash @ '' actually create or edit files.'',
               ''If the issue is ambiguous, use your best judgment to implement a solution.''])
     @ project_rules project"

definition marker_note :: string where
  "marker_note =
     ''Between '' @ backquote @ PR_BODY_START @ backquote @ '' and ''
       @ backquote @ PR_BODY_END @ backquote"

text \<open>
  The request for the change description: with the template of the repository when
  the clone has one, otherwise one of the two built-in templates.
\<close>

definition template_request :: "job \<Rightarrow> string option \<Rightarrow> string" where
  "template_request job prTpl =
     [nl, nl] @
     (case prTpl of
        Some tpl \<Rightarrow>
          join_lines
            [''After all code changes are complete, output the PR body in this format:'',
             [],
             marker_note @ '', fill in the PR template below.'',
             ''Keep the template structure and replace placeholders with details about this work.'',
             [],
             PR_BODY_START,
             tpl,
             PR_BODY_END]
      | None \<Rightarrow>
          if isDirect job then
            join_lines
              [''After all code changes are complete, output the PR body in this format:'',
               [],
               marker_note @ '', write the PR body.'',
               ''Include what changed and how to verify.'',
               [],
               PR_BODY_START,
               ''## Changes'',
               ''(describe changes)'',
               [],
               ''## How to verify'',
               ''(verification steps)'',
               PR_BODY_END]
          else
            join_lines
              [''After all code changes are complete, output the PR body in this format:'',
               [],
               marker_note @ '', write the PR body.'',
               ''The issue number is #'' @ issue_str job
                 @ ''. Include what changed and how to verify.'',
               [],
               PR_BODY_START,
               ''Resolves #'' @ issue_str job,
               [],
               ''## Changes'',
               ''(describe changes)'',
               [],
               ''## How to verify'',
               ''(verification steps)'',
               PR_BODY_END])"

definition retry_prompt :: "job \<Rightarrow> project \<Rightarrow> string \<Rightarrow> string \<Rightarrow> string \<Rightarrow> string" where
  "retry_prompt job project issueTitle issueBody claudeOutput =
     join_lines
       [taskRef job issueTitle,
        [],
        issueBody,
        [],
        heading ''Previous attempt result'',
        ''The previous attempt did not produce any file changes.'',
        [],
        ''Previous agent response:'',
        claudeOutput,
        [],
        heading ''Retry instructions'',
        ''Analyze why the previous attempt failed, then try a different approach to ''
          @ (if isDirect job then ''complete the task'' else ''resolve the issue'') @ ''.'',
        ''You MUST modify files. Do not just analyze '' @ emdash @ '' actually change the code.'',
        ''If the problem is complex, take a step-by-step approach.'']
     @ project_rules project"

subsection \<open>The callbacks the worker gives to the provider\<close>

definition input_field :: "(string \<times> string) list \<Rightarrow> string \<Rightarrow> string \<Rightarrow> string" where
  "input_field input k d = or_else (map_of input k) d"

definition onToolUse :: "env \<Rightarrow> job \<Rightarrow> string \<Rightarrow> (string \<times> string) list \<Rightarrow> unit prog" where
  "onToolUse e job name input =
     (if name = ''Read'' then log_line job (tri @ '' Reading: '' @ input_field input ''file_path'' [])
      else if name = ''Edit'' then log_line job (tri @ '' Editing: '' @ input_field input ''file_path'' [])
      else if name = ''Write'' then log_line job (tri @ '' Writing: '' @ input_field input ''file_path'' [])
      else if name = ''Bash'' then
        (let cmd = input_field input ''command'' []
         in log_line job (tri @ '' Running: ''
                     @ (if length cmd > 120 then take 120 cmd @ ''...'' else cmd)))
      else if name = ''Grep'' then
        log_line job (tri @ '' Searching: '' @ dquote @ input_field input ''pattern'' [] @ dquote
                 @ '' in '' @ input_field input ''path'' ''.'')
      else if name = ''Glob'' then
        log_line job (tri @ '' Finding files: '' @ input_field input ''pattern'' [])
      else log_line job (tri @ '' '' @ name @ '': '' @ take 100 (stringify e input)))"

definition onText :: "job \<Rightarrow> string \<Rightarrow> unit prog" where
  "onText job t = log_line job (chomp t)"

fun callback_of :: "env \<Rightarrow> job \<Rightarrow> agent_event \<Rightarrow> unit prog" where
  "callback_of e job (ToolUse name input) = onToolUse e job name input"
| "callback_of e job (TextOut t) = onText job t"

text \<open>
  \<^verbatim>\<open>provider.runAgent\<close> and the wait for its result: the callbacks run while the
  agent runs, then the promise is fulfilled with the result or rejected.
\<close>

definition run_agent :: "env \<Rightarrow> job \<Rightarrow> string \<Rightarrow> string \<Rightarrow> string prog" where
  "run_agent e job prompt cwd w =
     (let (events, r) = agent_at e (tick w);
          w1 = w\<lparr>trace := trace w @ [AgentRun prompt cwd events r]\<rparr>
      in case steps (map (callback_of e job) events) w1 of
           (_, w2) \<Rightarrow>
             (case r of Done out \<Rightarrow> (Value out, w2) | Failed msg \<Rightarrow> (Throw msg, w2)))"

text \<open>\<^verbatim>\<open>getProvider(project.provider || 'claude')\<close>: the co-author of the provider.\<close>

definition getProvider :: "string \<Rightarrow> string prog" where
  "getProvider name =
     (if name = ''claude'' then ret ''Claude <noreply@anthropic.com>''
      else throw (''Unknown provider: '' @ name))"


subsection \<open>The stages of the \<^verbatim>\<open>try\<close> block\<close>

text \<open>\<^verbatim>\<open>try { m } catch (err) { h(err) }\<close>\<close>

definition try_catch :: "'a prog \<Rightarrow> (string \<Rightarrow> 'a prog) \<Rightarrow> 'a prog" where
  "try_catch m h w = (case m w of (Value x, w1) \<Rightarrow> (Value x, w1) | (Throw e, w1) \<Rightarrow> h e w1)"

text \<open>The local variables of the worker that later stages read.\<close>

record locals =
  l_coAuthor :: string
  l_issueTitle :: string
  l_issueBody :: string
  l_branchName :: string
  l_remoteUrl :: string
  l_dir :: string
  l_prompt :: string

definition header :: "env \<Rightarrow> job \<Rightarrow> followUp option \<Rightarrow> unit prog" where
  "header e job fu =
     logs job
       [banner40,
        ''  Vampire '' @ emdash @ '' ''
          @ (if isDirect job then ''Direct #'' @ show_int (j_id job)
             else ''Issue #'' @ issue_str job)
          @ (if fu \<noteq> None then '' (Follow-up)'' else []),
        ''  '' @ take 19 (replace_first CHR ''T'' CHR '' '' (now_iso e)),
        banner40,
        []]"

text \<open>Stage 1: the title, the body and the branch name.\<close>

definition resolve_context ::
  "env \<Rightarrow> job \<Rightarrow> project \<Rightarrow> followUp option \<Rightarrow> (string \<times> string \<times> string) prog" where
  "resolve_context e job project fu =
     (case fu of
        Some f \<Rightarrow>
          (let branchName = f_branch f;
               issueTitle = or_else (j_issueTitle job)
                  (if isDirect job then j_type job @ '' #'' @ show_int (j_id job)
                   else j_type job @ '' #'' @ issue_str job)
           in andThen
                (logs job
                   [''[1/5] Follow-up on existing branch...'',
                    ''  Branch: '' @ branchName,
                    ''  Feedback: '' @ take 100 (f_message f)
                      @ (if length (f_message f) > 100 then ''...'' else []),
                    []])
                (ret (issueTitle, [], branchName)))
      | None \<Rightarrow>
          if isDirect job then
            andThen
              (log_line job (''[1/5] Direct mode '' @ emdash @ '' using provided description...''))
              (let issueTitle = or_else (j_issueTitle job) (j_type job @ '' #'' @ show_int (j_id job));
                   issueBody = or_else (j_description job) [];
                   branchName = j_type job @ ''/'' @ show_int (j_id job)
               in andThen
                    (logs job
                       [''  Title:  '' @ issueTitle,
                        ''  Type:   '' @ j_type job,
                        ''  Branch: '' @ branchName,
                        []])
                    (ret (issueTitle, issueBody, branchName)))
          else
            andThen
              (log_line job (''[1/5] Reading issue #'' @ issue_str job @ ''...''))
              (bind (exec e ''gh''
                       [''issue'', ''view'', issue_str job, ''--json'', ''title'', ''-q'', ''.title'']
                       (Some (p_path project)))
                 (\<lambda>issueTitle.
               bind (exec e ''gh''
                       [''issue'', ''view'', issue_str job, ''--json'', ''body'', ''-q'', ''.body'']
                       (Some (p_path project)))
                 (\<lambda>issueBody.
               (let branchName = j_type job @ ''/'' @ issue_str job
                in andThen (update_title e issueTitle)
                    (andThen
                       (logs job
                          [''  Title:  '' @ issueTitle,
                           ''  Type:   '' @ j_type job,
                           ''  Branch: '' @ branchName,
                           []])
                       (ret (issueTitle, issueBody, branchName))))))))"

text \<open>Stage 2.\<close>

definition fetch_latest :: "env \<Rightarrow> job \<Rightarrow> project \<Rightarrow> followUp option \<Rightarrow> string \<Rightarrow> unit prog" where
  "fetch_latest e job project fu branchName =
     andThen (log_line job ''[2/5] Fetching latest...'')
       (andThen (exec e ''git'' [''fetch'', ''origin'', p_baseBranch project] (Some (p_path project)))
          (if fu \<noteq> None
           then swallow (exec e ''git'' [''fetch'', ''origin'', branchName] (Some (p_path project)))
           else ret ()))"

text \<open>Stage 3: \<^verbatim>\<open>cloneDir\<close> is assigned before the clone is made.\<close>

definition workspace_name :: "env \<Rightarrow> job \<Rightarrow> string" where
  "workspace_name e job =
     (if isDirect job then ''vampire-direct-'' @ show_int (j_id job) @ ''-'' @ show_nat (now_ms e)
      else ''vampire-'' @ issue_str job @ ''-'' @ show_nat (now_ms e))"

definition set_cloneDir :: "string \<Rightarrow> unit prog" where
  "set_cloneDir d w = (Value (), w\<lparr>cloneDir := Some d\<rparr>)"

definition prepare_workspace ::
  "env \<Rightarrow> job \<Rightarrow> project \<Rightarrow> followUp option \<Rightarrow> string \<Rightarrow> (string \<times> string) prog" where
  "prepare_workspace e job project fu branchName =
     andThen (log_line job ''[3/5] Creating clean workspace...'')
       (bind (exec e ''git'' [''remote'', ''get-url'', ''origin''] (Some (p_path project)))
          (\<lambda>remoteUrl.
        (let dir = join_path (tmpdir e) (workspace_name e job)
         in andThen (set_cloneDir dir)
           (andThen
             (if fu \<noteq> None then
                andThen
                  (clone e [''clone'', p_path project, dir, ''--branch'', p_baseBranch project,
                            ''--no-tags'', ''--quiet''] dir)
                  (andThen (exec e ''git'' [''remote'', ''set-url'', ''origin'', remoteUrl] (Some dir))
                  (andThen (exec e ''git'' [''fetch'', ''origin'', branchName] (Some dir))
                     (exec e ''git'' [''checkout'', ''-b'', branchName, ''origin/'' @ branchName]
                        (Some dir))))
              else
                andThen
                  (clone e [''clone'', p_path project, dir, ''--branch'', p_baseBranch project,
                            ''--single-branch'', ''--no-tags'', ''--quiet''] dir)
                  (andThen (exec e ''git'' [''remote'', ''set-url'', ''origin'', remoteUrl] (Some dir))
                  (andThen
                     (swallow
                        (bind (exec e ''git'' [''ls-remote'', ''--heads'', ''origin'', branchName]
                                 (Some dir))
                           (\<lambda>lsRemote.
                              if sublist branchName lsRemote
                              then log_line job (''  Remote branch '' @ squote @ branchName @ squote
                                                 @ '' already exists. Will force push.'')
                              else ret ())))
                     (exec e ''git'' [''checkout'', ''-b'', branchName] (Some dir)))))
             (andThen (logs job [''  Workspace: '' @ dir, []])
                (ret (remoteUrl, dir)))))))"

text \<open>The prompt, with the pull-request template of the clone when it has one.\<close>

definition build_prompt ::
  "env \<Rightarrow> job \<Rightarrow> project \<Rightarrow> followUp option \<Rightarrow> string \<Rightarrow> string \<Rightarrow> string \<Rightarrow> string \<Rightarrow> string prog" where
  "build_prompt e job project fu issueTitle issueBody branchName dir =
     (let prTemplatePath = join_path (join_path dir ''.github'') ''PULL_REQUEST_TEMPLATE.md''
      in bind (existsSync e prTemplatePath)
           (\<lambda>found.
              if found then
                bind (readFileSync e prTemplatePath)
                  (\<lambda>prTpl. ret (first_prompt job project fu issueTitle issueBody branchName
                                  @ template_request job (Some prTpl)))
              else ret (first_prompt job project fu issueTitle issueBody branchName
                        @ template_request job None)))"

text \<open>Everything before the agent runs: lines 102 to 298.\<close>

definition before_agent :: "env \<Rightarrow> job \<Rightarrow> project \<Rightarrow> followUp option \<Rightarrow> locals prog" where
  "before_agent e job project fu =
     bind (getProvider (or_else (p_provider project) ''claude''))
       (\<lambda>coAuthor.
     andThen (header e job fu)
    (bind (resolve_context e job project fu)
       (\<lambda>(issueTitle, issueBody, branchName).
     andThen (checkpoint e)
    (andThen (fetch_latest e job project fu branchName)
    (bind (prepare_workspace e job project fu branchName)
       (\<lambda>(remoteUrl, dir).
     andThen (checkpoint e)
    (andThen (logs job [''[4/5] Running agent...'', rule40])
    (bind (build_prompt e job project fu issueTitle issueBody branchName dir)
       (\<lambda>prompt.
     ret \<lparr>l_coAuthor = coAuthor, l_issueTitle = issueTitle, l_issueBody = issueBody,
          l_branchName = branchName, l_remoteUrl = remoteUrl, l_dir = dir,
          l_prompt = prompt\<rparr>)))))))))"

subsection \<open>Stage 4: the agent and the retries\<close>

text \<open>
  The inspection of the workspace after a run.  \<^verbatim>\<open>git diff --quiet\<close> completes when
  there is no difference and fails otherwise; whatever fails, the \<^verbatim>\<open>catch\<close> sets
  \<^verbatim>\<open>hasChanges\<close>.
\<close>

definition check_changes :: "env \<Rightarrow> string \<Rightarrow> bool prog" where
  "check_changes e dir =
     try_catch
       (andThen (exec e ''git'' [''diff'', ''--quiet''] (Some dir))
       (andThen (exec e ''git'' [''diff'', ''--cached'', ''--quiet''] (Some dir))
       (bind (exec e ''git'' [''ls-files'', ''--others'', ''--exclude-standard''] (Some dir))
          (\<lambda>untracked. ret (length untracked > 0)))))
       (\<lambda>err. ret True)"

definition comment_body :: string where
  "comment_body =
     ''Vampire: Attempted '' @ show_nat MAX_RETRY
       @ '' times but could not produce changes. Please make the issue description more specific.''"

text \<open>What one pass of the loop ends with: \<^verbatim>\<open>break\<close>, or the next pass.\<close>

datatype pass = Break string | Again string

definition agent_attempt ::
  "env \<Rightarrow> job \<Rightarrow> project \<Rightarrow> locals \<Rightarrow> nat \<Rightarrow> string \<Rightarrow> pass prog" where
  "agent_attempt e job project l attempt claudeOutput =
     andThen (checkpoint e)
    (bind
       (if attempt = 1 then ret (l_prompt l)
        else andThen
               (logs job
                  [[],
                   ''[4/5] Retry #'' @ show_nat (attempt - 1) @ '' '' @ emdash
                     @ '' analyzing previous failure and retrying...'',
                   rule40])
               (ret (retry_prompt job project (l_issueTitle l) (l_issueBody l) claudeOutput)))
       (\<lambda>currentPrompt.
     bind (run_agent e job currentPrompt (l_dir l))
       (\<lambda>out.
     andThen (logs job [[], rule40])
    (bind (check_changes e (l_dir l))
       (\<lambda>hasChanges.
          if hasChanges then ret (Break out)
          else if attempt > MAX_RETRY then
            andThen
              (logs job [[], ''No changes detected after '' @ show_nat MAX_RETRY @ '' retries.''])
           (andThen
              (if \<not> isDirect job
               then swallow
                      (exec e ''gh''
                         [''issue'', ''comment'', issue_str job, ''--body'', comment_body,
                          ''--repo'', l_remoteUrl l]
                         (Some (l_dir l)))
               else ret ())
              (throw ''no changes after retries''))
          else
            andThen
              (logs job
                 [[],
                  ''No changes detected. Retrying... (attempt '' @ show_nat attempt @ ''/''
                    @ show_nat MAX_RETRY @ '')''])
              (ret (Again out)))))))"

text \<open>\<^verbatim>\<open>for (let attempt = 1; attempt <= MAX_RETRY + 1; attempt++)\<close>\<close>

function agent_loop ::
  "env \<Rightarrow> job \<Rightarrow> project \<Rightarrow> locals \<Rightarrow> nat \<Rightarrow> string \<Rightarrow> string prog" where
  "agent_loop e job project l attempt claudeOutput w =
     (if attempt \<le> MAX_RETRY + 1 then
        (case agent_attempt e job project l attempt claudeOutput w of
           (Value (Break out), w1) \<Rightarrow> (Value out, w1)
         | (Value (Again out), w1) \<Rightarrow> agent_loop e job project l (Suc attempt) out w1
         | (Throw err, w1) \<Rightarrow> (Throw err, w1))
      else (Value claudeOutput, w))"
  by pat_completeness auto
termination
  by (relation "measure (\<lambda>(e, job, project, l, attempt, claudeOutput, w). MAX_RETRY + 2 - attempt)")
     auto

declare agent_loop.simps [simp del]

text \<open>Stages 1 to 4 and the checkpoint before the commit: lines 102 to 396.\<close>

definition until_commit ::
  "env \<Rightarrow> job \<Rightarrow> project \<Rightarrow> followUp option \<Rightarrow> (locals \<times> string) prog" where
  "until_commit e job project fu =
     bind (before_agent e job project fu)
       (\<lambda>l.
     bind (agent_loop e job project l 1 [])
       (\<lambda>claudeOutput.
     andThen (checkpoint e) (ret (l, claudeOutput))))"

subsection \<open>Stage 5: commit, push and the results\<close>

definition title_line :: "job \<Rightarrow> string \<Rightarrow> string" where
  "title_line job issueTitle =
     (if isDirect job then j_type job @ '': '' @ issueTitle
      else j_type job @ '': '' @ issueTitle @ '' (#'' @ issue_str job @ '')'')"

definition commit_and_push :: "env \<Rightarrow> job \<Rightarrow> project \<Rightarrow> locals \<Rightarrow> unit prog" where
  "commit_and_push e job project l =
     andThen (log_line job ''[5/5] Committing & pushing...'')
       (bind (exec e ''git'' [''branch'', ''--show-current''] (Some (l_dir l)))
          (\<lambda>currentBranch.
             if currentBranch = p_baseBranch project then
               throw (''FATAL: current branch is '' @ p_baseBranch project @ ''. Aborting push.'')
             else
               andThen (exec e ''git'' [''add'', ''-A''] (Some (l_dir l)))
              (andThen
                 (exec e ''git''
                    [''commit'', ''--no-verify'', ''-m'',
                     title_line job (l_issueTitle l) @ [nl, nl] @ ''Co-Authored-By: '' @ l_coAuthor l]
                    (Some (l_dir l)))
              (andThen
                 (exec e ''git''
                    [''push'', ''origin'',
                     ''refs/heads/'' @ l_branchName l @ '':refs/heads/'' @ l_branchName l,
                     ''--force-with-lease'']
                    (Some (l_dir l)))
                 (ret ())))))"

definition extract_results :: "env \<Rightarrow> job \<Rightarrow> locals \<Rightarrow> string \<Rightarrow> worker_result prog" where
  "extract_results e job l claudeOutput =
     bind (exec e ''git'' [''diff'', ''HEAD~1''] (Some (l_dir l)))
       (\<lambda>diff.
     (let prBody = extract_pr_body (j_issueNo job) claudeOutput;
          prTitle = title_line job (l_issueTitle l)
      in andThen
           (logs job
              [[],
               banner40,
               ''  DONE'',
               ''  '' @ (if isDirect job then ''Task: '' @ l_issueTitle l
                        else ''Issue:  #'' @ issue_str job),
               ''  Branch: '' @ l_branchName l,
               ''  Create a PR from the web UI.'',
               banner40])
           (ret \<lparr>r_status = ''completed'', r_branch = Some (l_branchName l),
                 r_prBody = Some prBody, r_prTitle = Some prTitle, r_diff = Some diff\<rparr>)))"

definition try_block :: "env \<Rightarrow> job \<Rightarrow> project \<Rightarrow> followUp option \<Rightarrow> worker_result prog" where
  "try_block e job project fu =
     bind (until_commit e job project fu)
       (\<lambda>(l, claudeOutput).
     andThen (commit_and_push e job project l)
       (extract_results e job l claudeOutput))"

subsection \<open>\<^verbatim>\<open>catch\<close>, \<^verbatim>\<open>finally\<close> and the handlers that settle the job\<close>

definition cancelled_result :: worker_result where
  "cancelled_result =
     \<lparr>r_status = ''cancelled'', r_branch = None, r_prBody = None, r_prTitle = None,
      r_diff = None\<rparr>"

definition catch_block :: "job \<Rightarrow> string \<Rightarrow> worker_result prog" where
  "catch_block job msg =
     (if msg = ''cancelled'' then ret cancelled_result
      else andThen (logs job [[], ''Error: '' @ msg]) (throw msg))"

text \<open>\<^verbatim>\<open>if (cloneDir) { try { await rm(...); log(''); log(...) } catch (_) {} }\<close>\<close>

definition finally_block :: "env \<Rightarrow> job \<Rightarrow> unit prog" where
  "finally_block e job w =
     (if given (cloneDir w)
      then swallow (andThen (rm e (or_else (cloneDir w) []))
                      (logs job [[], ''Cleaning up workspace...''])) w
      else (Value (), w))"

text \<open>The block runs after the \<^verbatim>\<open>try\<close> and the \<^verbatim>\<open>catch\<close> and leaves their outcome as it is.\<close>

definition workerPromise :: "env \<Rightarrow> job \<Rightarrow> project \<Rightarrow> followUp option \<Rightarrow> worker_result prog" where
  "workerPromise e job project fu w =
     (case try_catch (try_block e job project fu) (catch_block job) w of
        (r, w1) \<Rightarrow> (case finally_block e job w1 of (u, w2) \<Rightarrow> (r, w2)))"

definition emit :: "string \<Rightarrow> string \<Rightarrow> unit prog" where
  "emit topic payload w = (Value (), w\<lparr>published := published w @ [(topic, payload)]\<rparr>)"

text \<open>The last write: its failure goes to the console only.\<close>

definition persist :: "env \<Rightarrow> string \<Rightarrow> artifacts option \<Rightarrow> unit prog" where
  "persist e finalStatus arts w =
     swallow (update_final e \<lparr>fd_status = finalStatus, fd_log = logBuffer w, fd_artifacts = arts\<rparr>) w"

definition announce :: "job \<Rightarrow> string \<Rightarrow> string prog" where
  "announce job finalStatus =
     andThen (emit (log_topic (j_id job)) ([nl] @ ''[worker exited: '' @ finalStatus @ '']''))
    (andThen (emit (done_topic (j_id job)) finalStatus)
       (ret finalStatus))"

definition then_handler :: "env \<Rightarrow> job \<Rightarrow> worker_result \<Rightarrow> string prog" where
  "then_handler e job res =
     bind
       (if r_status res \<noteq> ''cancelled''
        then bind (isCancelled e Finalization)
               (\<lambda>c. ret (if c then ''cancelled'' else r_status res))
        else ret (r_status res))
       (\<lambda>finalStatus.
     andThen
       (persist e finalStatus
          (Some \<lparr>a_branch = or_null (r_branch res), a_prBody = or_null (r_prBody res),
                 a_prTitle = or_null (r_prTitle res), a_diff = or_null (r_diff res)\<rparr>))
       (announce job finalStatus))"

definition catch_handler :: "env \<Rightarrow> job \<Rightarrow> string \<Rightarrow> string prog" where
  "catch_handler e job msg =
     bind (isCancelled e Finalization)
       (\<lambda>c.
     (let finalStatus = (if c then ''cancelled'' else ''failed'')
      in andThen (persist e finalStatus None) (announce job finalStatus)))"

text \<open>
  A run of the worker from its start to the settled job: the final status and the
  state at the end.  The registry of active workers and the debounced flush of the
  log are left out.
\<close>

definition runWorker ::
  "env \<Rightarrow> job \<Rightarrow> project \<Rightarrow> followUp option \<Rightarrow> string outcome \<times> world" where
  "runWorker e job project fu =
     (case workerPromise e job project fu fresh of
        (Value res, w1) \<Rightarrow> then_handler e job res w1
      | (Throw msg, w1) \<Rightarrow> catch_handler e job msg w1)"


section \<open>Vocabulary for the runs of the worker\<close>

text \<open>
  The rest of the definitions serve the statements and proofs about the worker: what a
  program adds to the trace, the kinds of interactions of each stage, and names for
  the states between the blocks of \<^verbatim>\<open>runWorker\<close>.
\<close>

definition emits :: "(interaction \<Rightarrow> bool) \<Rightarrow> 'a prog \<Rightarrow> bool" where
  "emits P m \<longleftrightarrow> (\<forall>w. \<exists>new. trace (snd (m w)) = trace w @ new \<and> list_all P new)"

named_theorems emits_intros

text \<open>
  The interactions of stages 1 to 3 and of the prompt; of the retry loop; of stage 5;
  and of the cleanup and the handlers that settle the job.
\<close>

fun plain_setup :: "interaction \<Rightarrow> bool" where
  "plain_setup (Exec cmd args cwd r) =
     (cmd = ''gh'' \<and> take 2 args = [''issue'', ''view'']
      \<or> cmd = ''git'' \<and> take 1 args \<in> {[''fetch''], [''remote''], [''clone''], [''ls-remote''], [''checkout'']})"
| "plain_setup (TitleUpdate t r) = True"
| "plain_setup (ExistsSync p b) = True"
| "plain_setup (ReadFile p r) = True"
| "plain_setup i = False"

fun plain_loop :: "interaction \<Rightarrow> bool" where
  "plain_loop (Exec cmd args cwd r) =
     (cmd = ''gh'' \<and> take 2 args = [''issue'', ''comment'']
      \<or> cmd = ''git'' \<and> args \<in> {[''diff'', ''--quiet''], [''diff'', ''--cached'', ''--quiet''],
                                  [''ls-files'', ''--others'', ''--exclude-standard'']})"
| "plain_loop (AgentRun p cwd evs r) = True"
| "plain_loop i = False"

fun checkpoint_read :: "interaction \<Rightarrow> bool" where
  "checkpoint_read (StatusRead s r) = (s = Checkpoint)"
| "checkpoint_read i = False"

definition setup_call :: "interaction \<Rightarrow> bool" where
  "setup_call i = (plain_setup i \<or> checkpoint_read i)"

definition loop_call :: "interaction \<Rightarrow> bool" where
  "loop_call i = (plain_loop i \<or> checkpoint_read i)"

fun commit_call :: "interaction \<Rightarrow> bool" where
  "commit_call (Exec cmd args cwd r) =
     (cmd = ''git'' \<and> (take 1 args \<in> {[''branch''], [''add''], [''commit''], [''push'']}
                       \<or> args = [''diff'', ''HEAD~1'']))"
| "commit_call i = False"

fun settle_call :: "interaction \<Rightarrow> bool" where
  "settle_call (Rm d r) = True"
| "settle_call (StatusRead s r) = (s = Finalization)"
| "settle_call (FinalUpdate d r) = True"
| "settle_call i = False"

definition the_cancel :: interaction where
  "the_cancel = StatusRead Checkpoint (Found ''cancelled'')"

fun no_checkpoint :: "interaction \<Rightarrow> bool" where
  "no_checkpoint (StatusRead s r) = (s \<noteq> Checkpoint)"
| "no_checkpoint i = True"

text \<open>
  A program stops at the checkpoint that finds the job cancelled: that read, when the
  program makes it, is its last interaction, and the program raises the sentinel.
\<close>

definition chk :: "'a prog \<Rightarrow> bool" where
  "chk m \<longleftrightarrow>
     (\<forall>w. \<exists>new. trace (snd (m w)) = trace w @ new
        \<and> (\<forall>pre post. new = pre @ the_cancel # post \<longrightarrow> post = [] \<and> fst (m w) = Throw ''cancelled''))"

definition early_call :: "interaction \<Rightarrow> bool" where
  "early_call i = (plain_setup i \<or> plain_loop i \<or> checkpoint_read i)"

definition cleaned :: "env \<Rightarrow> job \<Rightarrow> world \<Rightarrow> world" where
  "cleaned e job w = snd (finally_block e job w)"

text \<open>The outcome of the worker promise, from the outcome of the \<^verbatim>\<open>try\<close> block.\<close>

definition noted :: "job \<Rightarrow> string \<Rightarrow> world \<Rightarrow> world" where
  "noted job msg w = snd (logs job [[], ''Error: '' @ msg] w)"

definition arts_of :: "worker_result \<Rightarrow> artifacts" where
  "arts_of res = \<lparr>a_branch = or_null (r_branch res), a_prBody = or_null (r_prBody res),
                  a_prTitle = or_null (r_prTitle res), a_diff = or_null (r_diff res)\<rparr>"

fun blank_listing :: "interaction \<Rightarrow> bool" where
  "blank_listing (Exec cmd args cwd r) =
     (cmd = ''git'' \<and> args = [''ls-files'', ''--others'', ''--exclude-standard'']
      \<and> (\<exists>out. r = Done out \<and> trim out = []))"
| "blank_listing i = False"

fun is_comment :: "interaction \<Rightarrow> bool" where
  "is_comment (Exec cmd args cwd r) = (cmd = ''gh'' \<and> take 2 args = [''issue'', ''comment''])"
| "is_comment i = False"

fun is_agent :: "interaction \<Rightarrow> bool" where
  "is_agent (AgentRun p cwd evs r) = True"
| "is_agent i = False"

definition count :: "(interaction \<Rightarrow> bool) \<Rightarrow> interaction list \<Rightarrow> nat" where
  "count P xs = length (filter P xs)"

definition exhausted_line :: string where
  "exhausted_line = ''No changes detected after 2 retries.''"

definition no_changes_error :: string where
  "no_changes_error = ''no changes after retries''"

definition after_callbacks :: "env \<Rightarrow> job \<Rightarrow> agent_event list \<Rightarrow> world \<Rightarrow> world" where
  "after_callbacks e job evs w = snd (steps (map (callback_of e job) evs) w)"

definition has_changes :: "env \<Rightarrow> string \<Rightarrow> world \<Rightarrow> bool" where
  "has_changes e d w = (fst (check_changes e d w) = Value True)"

definition check_new :: "env \<Rightarrow> string \<Rightarrow> world \<Rightarrow> interaction list" where
  "check_new e d w = drop (length (trace w)) (trace (snd (check_changes e d w)))"

definition work_call :: "interaction \<Rightarrow> bool" where
  "work_call i = (early_call i \<or> commit_call i)"

fun is_publish :: "interaction \<Rightarrow> bool" where
  "is_publish (Exec cmd args cwd r) =
     (cmd = ''git'' \<and> take 1 args \<in> {[''add''], [''commit''], [''push'']})"
| "is_publish i = False"

fun is_push :: "interaction \<Rightarrow> bool" where
  "is_push (Exec cmd args cwd r) = (cmd = ''git'' \<and> take 1 args = [''push''])"
| "is_push i = False"

definition fatal_error :: "project \<Rightarrow> string" where
  "fatal_error project = ''FATAL: current branch is '' @ p_baseBranch project @ ''. Aborting push.''"

fun is_last_diff :: "interaction \<Rightarrow> bool" where
  "is_last_diff (Exec cmd args cwd r) = (cmd = ''git'' \<and> args = [''diff'', ''HEAD~1''])"
| "is_last_diff i = False"


section \<open>Properties of the strings\<close>





section \<open>Properties of the decoder\<close>

lemma split_nl_nonempty: "split_nl s \<noteq> []"
  by (induction s) (auto split: list.splits)

lemma split_nl_no_nl: "LF \<notin> set s \<Longrightarrow> split_nl s = [s]"
  by (induction s) auto

lemma split_nl_segments: "seg \<in> set (split_nl s) \<Longrightarrow> LF \<notin> set seg"
  by (induction s arbitrary: seg) (auto split: if_splits list.splits)

lemma split_nl_append:
  "split_nl (a @ b) = butlast (split_nl a) @ (last (split_nl a) @ hd (split_nl b)) # tl (split_nl b)"
proof (induction a)
  case Nil
  then show ?case using split_nl_nonempty [of b] by (cases "split_nl b") auto
next
  case (Cons c a)
  then show ?case using split_nl_nonempty [of a] split_nl_nonempty [of "a @ b"]
    by (cases "split_nl a"; cases "butlast (split_nl a)") (auto split: list.splits if_splits)
qed

lemma ascii_byte:
  assumes "of_char c < (0x80 :: nat)"
  shows "(of_nat (of_char c) :: byte) < 0x80" "unat (of_nat (of_char c) :: byte) = of_char c"
proof -
  have u: "unat (of_nat (of_char c) :: byte) = of_char c"
    using assms by (simp add: unat_of_nat)
  then show "(of_nat (of_char c) :: byte) < 0x80" using assms by (simp add: word_less_nat_alt)
  show "unat (of_nat (of_char c) :: byte) = of_char c" by (rule u)
qed

lemma toString_ascii: "ascii s \<Longrightarrow> toString (bytes_of s @ rest) = text_of s @ toString rest"
  by (induction s) (simp_all add: ascii_def bytes_of_def text_of_def ascii_byte)

lemma toString_low: "list_all (\<lambda>b. b < 0x80) a \<Longrightarrow> toString (a @ b) = toString a @ toString b"
  by (induction a) simp_all

lemma toString_low_chunks:
  "list_all (list_all (\<lambda>b. b < 0x80)) cs \<Longrightarrow> concat (map toString cs) = toString (concat cs)"
  by (induction cs) (simp_all add: toString_low)

lemma bytes_of_append: "bytes_of (a @ b) = bytes_of a @ bytes_of b"
  by (simp add: bytes_of_def)

lemma text_of_append: "text_of (a @ b) = text_of a @ text_of b"
  by (simp add: text_of_def)

lemma ascii_append: "ascii (a @ b) = (ascii a \<and> ascii b)"
  by (simp add: ascii_def)


section \<open>Properties of the stream parser\<close>

lemma lineBuf_called_comm:
  "st\<lparr>lineBuf := x, called := c\<rparr> = st\<lparr>called := c, lineBuf := x\<rparr>"
  by (cases st) simp

lemma lineBuf_result_comm:
  "st\<lparr>lineBuf := x, finalResult := r\<rparr> = st\<lparr>finalResult := r, lineBuf := x\<rparr>"
  by (cases st) simp

lemma each_block_lineBuf:
  "each_block h bs (st\<lparr>lineBuf := x\<rparr>) = (each_block h bs st)\<lparr>lineBuf := x\<rparr>"
proof (induction bs arbitrary: st)
  case Nil
  show ?case by simp
next
  case (Cons b bs)
  have tool: "each_block h bs (st\<lparr>lineBuf := x, called := c\<rparr>)
                 = (each_block h bs (st\<lparr>called := c\<rparr>))\<lparr>lineBuf := x\<rparr>" for c
    by (subst lineBuf_called_comm) (rule Cons.IH)
  have tblock: "each_block h bs (st\<lparr>lineBuf := x, finalResult := r, called := c\<rparr>)
                 = (each_block h bs (st\<lparr>finalResult := r, called := c\<rparr>))\<lparr>lineBuf := x\<rparr>" for r c
    by (subst lineBuf_result_comm, subst lineBuf_called_comm) (rule Cons.IH)
  show ?case by (simp add: Let_def tool tblock Cons.IH lineBuf_called_comm)
qed

lemma processLine_lineBuf:
  "processLine h line (st\<lparr>lineBuf := x\<rparr>) = (processLine h line st)\<lparr>lineBuf := x\<rparr>"
  by (simp add: processLine_def each_block_lineBuf split: option.splits jsval.splits)

lemma process_lines_lineBuf:
  "process_lines h ls (st\<lparr>lineBuf := x\<rparr>) = (process_lines h ls st)\<lparr>lineBuf := x\<rparr>"
  unfolding process_lines_def
  by (induction ls arbitrary: st) (simp_all add: processLine_lineBuf)

lemma process_lines_append:
  "process_lines h (xs @ ys) st = process_lines h ys (process_lines h xs st)"
  by (simp add: process_lines_def)

lemma on_stdout_feed: "on_stdout h chunk st = feed h (toString chunk) st"
  by (simp add: on_stdout_def feed_def Let_def pop_or_empty_def split_nl_nonempty
      process_lines_lineBuf)

lemma split_nl_last_no_nl: "LF \<notin> set (last (split_nl s))"
  using split_nl_segments [of "last (split_nl s)" s] split_nl_nonempty [of s] by simp

lemma split_nl_buffered:
  "split_nl (last (split_nl s) @ b) = (last (split_nl s) @ hd (split_nl b)) # tl (split_nl b)"
  using split_nl_append [of "last (split_nl s)" b] split_nl_no_nl [OF split_nl_last_no_nl [of s]]
  by simp

lemma feed_append: "feed h b (feed h a st) = feed h (a @ b) st"
proof -
  let ?La = "split_nl (lineBuf st @ a)"
  let ?Lb = "split_nl (last ?La @ b)"
  have whole: "split_nl (lineBuf st @ a @ b) = butlast ?La @ ?Lb"
    using split_nl_append [of "lineBuf st @ a" b] by (simp add: split_nl_buffered)
  have ne: "?Lb \<noteq> []" by (rule split_nl_nonempty)
  have "butlast (butlast ?La @ ?Lb) = butlast ?La @ butlast ?Lb"
    using ne by (simp add: butlast_append)
  moreover have "last (butlast ?La @ ?Lb) = last ?Lb" using ne by simp
  ultimately show ?thesis
    by (simp add: feed_def whole process_lines_append process_lines_lineBuf)
qed

lemma feed_start_empty: "feed h [] start = start"
  by (simp add: feed_def start_def process_lines_def)

lemma feed_concat:
  "foldl (on_event h) (feed h a st) (map Stdout cs) = feed h (a @ concat (map toString cs)) st"
proof (induction cs arbitrary: a)
  case Nil
  then show ?case by simp
next
  case (Cons c cs)
  have "foldl (on_event h) (feed h a st) (map Stdout (c # cs))
        = foldl (on_event h) (feed h (a @ toString c) st) (map Stdout cs)"
    by (simp add: on_stdout_feed feed_append)
  then show ?case using Cons.IH [of "a @ toString c"] by simp
qed

lemma feed_from_start:
  "foldl (on_event h) start (map Stdout cs) = feed h (concat (map toString cs)) start"
  using feed_concat [of h "[]" start cs] by (simp add: feed_start_empty)

lemma processLine_blank: "trim_units line = [] \<Longrightarrow> processLine h line st = st"
  by (simp add: processLine_def)

lemma each_block_settled: "settled (each_block h bs st) = settled st"
  by (induction bs arbitrary: st) (simp_all add: Let_def)

lemma processLine_settled: "settled (processLine h line st) = settled st"
  by (simp add: processLine_def each_block_settled split: option.splits jsval.splits)

lemma process_lines_settled: "settled (process_lines h ls st) = settled st"
  unfolding process_lines_def
  by (induction ls arbitrary: st) (simp_all add: processLine_settled)

lemma close_after_feed: "on_close h code (feed h s start) = closed_on h s code"
proof -
  let ?L = "split_nl s"
  let ?st = "(process_lines h (butlast ?L) start)\<lparr>lineBuf := last ?L\<rparr>"
  have st: "feed h s start = ?st" by (simp add: feed_def start_def)
  have flush: "(if trim_units (lineBuf ?st) \<noteq> [] then processLine h (lineBuf ?st) ?st else ?st)
               = processLine h (last ?L) ?st"
    by (simp add: processLine_blank)
  have "process_lines h ?L start = process_lines h (butlast ?L @ [last ?L]) start"
    using split_nl_nonempty [of s] by simp
  then have all: "processLine h (last ?L) ?st = (process_lines h ?L start)\<lparr>lineBuf := last ?L\<rparr>"
    by (simp add: process_lines_append processLine_lineBuf) (simp add: process_lines_def)
  have unsettled: "settled ((process_lines h ?L start)\<lparr>lineBuf := last ?L\<rparr>) = None"
    by (simp add: process_lines_settled start_def)
  show ?thesis
    unfolding st on_close_def closed_on_def Let_def flush all settle_def unsettled
    by simp
qed

lemma no_nl_buffers:
  "LF \<notin> set (lineBuf st) \<Longrightarrow> LF \<notin> set t \<Longrightarrow> feed h t st = st\<lparr>lineBuf := lineBuf st @ t\<rparr>"
  by (simp add: feed_def split_nl_no_nl process_lines_def)

lemma tool_use_line:
  assumes "trim_units line \<noteq> []" "json_parse h line = Some event"
    "get event ''type'' = JStr ''assistant''" "message_content event = JArr [block]"
    "get block ''type'' = JStr ''tool_use''" "get block ''name'' = JStr name"
    "get block ''input'' = JObj kvs"
  shows "processLine h line st = st\<lparr>called := called st @ [OnToolUse (JStr name) (JObj kvs)]\<rparr>"
proof -
  have "\<not> nullish event" using assms(3) by (cases event) simp_all
  moreover have "\<not> nullish block" using assms(5) by (cases block) simp_all
  ultimately show ?thesis using assms by (simp add: processLine_def Let_def)
qed

lemma split_line_nl: "LF \<notin> set line \<Longrightarrow> split_nl (line @ [LF]) = [line, []]"
  using split_nl_append [of line "[LF]"] by (simp add: split_nl_no_nl)

lemma feed_line: "LF \<notin> set line \<Longrightarrow> feed h (line @ [LF]) start = processLine h line start"
  by (simp add: feed_def split_line_nl process_lines_def start_def processLine_lineBuf [symmetric])

lemma two_chunks: "runAgent h [Stdout a, Stdout b] = feed h (toString a @ toString b) start"
  using feed_from_start [of h "[a, b]"] by (simp add: runAgent_def)

lemma one_chunk: "runAgent h [Stdout a] = feed h (toString a) start"
  using feed_from_start [of h "[a]"] by (simp add: runAgent_def)

lemma chunks_then_close:
  "runAgent h (map Stdout cs @ [Close code]) = closed_on h (concat (map toString cs)) code"
  by (simp add: runAgent_def feed_from_start close_after_feed)

text \<open>
  However the standard output is cut into chunks, the parser handles the lines of
  the text that the chunks decode to one after the other, each line once and in
  order, and the rest after the last newline when the process closes.  When the
  chunks hold only bytes below 0x80, that text is the text of the whole stream.
\<close>

theorem decoded_lines_parsed_once:
  "runAgent h (map Stdout cs @ [Close code]) = closed_on h (concat (map toString cs)) code
   \<and> (list_all (list_all (\<lambda>b. b < 0x80)) cs \<longrightarrow>
        runAgent h (map Stdout cs @ [Close code]) = closed_on h (toString (concat cs)) code)"
  by (simp add: chunks_then_close toString_low_chunks)

text \<open>
  A tool-use record for \<^verbatim>\<open>Write\<close> with input \<^verbatim>\<open>{file_path: "a.ts"}\<close> that has no
  character above U+007F, cut at any byte offset \<open>k\<close>, gives no callback before its
  newline has arrived and exactly one \<^verbatim>\<open>onToolUse\<close> callback, with that name and
  input, once it has.
\<close>

theorem ascii_record_cut_anywhere:
  assumes "ascii line" "LF \<notin> set (text_of line)" "trim_units (text_of line) \<noteq> []"
    "json_parse h (text_of line) = Some event"
    "get event ''type'' = JStr ''assistant''" "message_content event = JArr [block]"
    "get block ''type'' = JStr ''tool_use''" "get block ''name'' = JStr ''Write''"
    "get block ''input'' = JObj [(''file_path'', JStr ''a.ts'')]"
  shows "k \<le> length line \<Longrightarrow> called (runAgent h [Stdout (take k (bytes_of line @ [0x0A]))]) = []"
    and "called (runAgent h [Stdout (take k (bytes_of line @ [0x0A])),
                             Stdout (drop k (bytes_of line @ [0x0A]))])
           = [OnToolUse (JStr ''Write'') (JObj [(''file_path'', JStr ''a.ts'')])]"
proof -
  have nl: "bytes_of line @ [0x0A] = bytes_of (line @ [nl])"
    by (simp add: bytes_of_def nl_def)
  have tk: "take k (bytes_of (line @ [nl])) = bytes_of (take k (line @ [nl]))"
    and dr: "drop k (bytes_of (line @ [nl])) = bytes_of (drop k (line @ [nl]))"
    unfolding bytes_of_def by (rule take_map, rule drop_map)
  have a: "ascii (line @ [nl])" using assms(1) by (simp add: ascii_def nl_def)
  then have a2: "ascii (take k (line @ [nl]) @ drop k (line @ [nl]))"
    by (simp only: append_take_drop_id)
  then have a1: "ascii (take k (line @ [nl]))" and a3: "ascii (drop k (line @ [nl]))"
    unfolding ascii_append by simp_all
  have d1: "toString (bytes_of (take k (line @ [nl]))) = text_of (take k (line @ [nl]))"
    using toString_ascii [OF a1, of "[]"] by simp
  have d2: "toString (bytes_of (drop k (line @ [nl]))) = text_of (drop k (line @ [nl]))"
    using toString_ascii [OF a3, of "[]"] by simp
  have whole: "text_of (take k (line @ [nl])) @ text_of (drop k (line @ [nl])) = text_of line @ [LF]"
    unfolding text_of_append [symmetric] append_take_drop_id
    by (simp add: text_of_def nl_def LF_def)
  {
    assume "k \<le> length line"
    then have "text_of (take k (line @ [nl])) = take k (text_of line)"
      by (simp add: text_of_def take_map)
    then have "LF \<notin> set (text_of (take k (line @ [nl])))"
      using assms(2) by (metis in_set_takeD)
    then have "feed h (text_of (take k (line @ [nl]))) start
                 = start\<lparr>lineBuf := text_of (take k (line @ [nl]))\<rparr>"
      using no_nl_buffers [of start "text_of (take k (line @ [nl]))" h] by (simp add: start_def)
    then show "called (runAgent h [Stdout (take k (bytes_of line @ [0x0A]))]) = []"
      unfolding nl tk one_chunk d1 by (simp add: start_def)
  }
  have "processLine h (text_of line) start =
          start\<lparr>called := called start @ [OnToolUse (JStr ''Write'') (JObj [(''file_path'', JStr ''a.ts'')])]\<rparr>"
    using assms by (simp add: tool_use_line [of "text_of line" h event block "''Write''"
          "[(''file_path'', JStr ''a.ts'')]" start])
  then show "called (runAgent h [Stdout (take k (bytes_of line @ [0x0A])),
                             Stdout (drop k (bytes_of line @ [0x0A]))])
           = [OnToolUse (JStr ''Write'') (JObj [(''file_path'', JStr ''a.ts'')])]"
    unfolding nl tk dr two_chunks d1 d2 whole feed_line [OF assms(2)]
    by (simp add: start_def)
qed

text \<open>
  The record of the scenario, delivered to a host that parses it and cut at any byte
  offset \<open>k\<close>, gives exactly one \<^verbatim>\<open>onToolUse\<close> callback.
\<close>

theorem write_record_cut_anywhere:
  "called (runAgent demo_host [Stdout (take k (bytes_of write_record @ [0x0A])),
                             Stdout (drop k (bytes_of write_record @ [0x0A]))])
     = [OnToolUse (JStr ''Write'') (JObj [(''file_path'', JStr ''a.ts'')])]"
proof -
  let ?block = "JObj [(''type'', JStr ''tool_use''), (''name'', JStr ''Write''),
                      (''input'', JObj [(''file_path'', JStr ''a.ts'')])]"
  have h0: "ascii write_record" by (simp add: write_record_def ascii_def)
  have h1: "LF \<notin> set (text_of write_record)"
    by (simp add: write_record_def text_of_def LF_def)
  have h2: "trim_units (text_of write_record) \<noteq> []"
    by (simp add: write_record_def text_of_def trim_units_def is_space_def)
  have h3: "json_parse demo_host (text_of write_record) = Some write_event"
    by (simp add: demo_host_def)
  have h4: "get write_event ''type'' = JStr ''assistant''" by (simp add: write_event_def)
  have h5: "message_content write_event = JArr [?block]"
    by (simp add: write_event_def message_content_def)
  have h6: "get ?block ''type'' = JStr ''tool_use''" "get ?block ''name'' = JStr ''Write''"
    "get ?block ''input'' = JObj [(''file_path'', JStr ''a.ts'')]" by simp_all
  show ?thesis by (rule ascii_record_cut_anywhere(2) [OF h0 h1 h2 h3 h4 h5 h6])
qed

text \<open>
  Claim C4.  The parser does not parse every record that is split across chunks at
  any byte offset.  The record
  \<^verbatim>\<open>{"type":"assistant","message":{"content":[{"type":"text","text":"X"}]}}\<close> with
  U+00E9 for \<^verbatim>\<open>X\<close>, which UTF-8 encodes as the bytes C3 A9, followed by its newline:
  delivered in one chunk, the line handed to \<^verbatim>\<open>processLine\<close> is the record;
  delivered in two chunks cut between C3 and A9, each chunk is decoded alone, C3 at
  the end of the first and A9 at the start of the second each become U+FFFD, and the
  line handed to \<^verbatim>\<open>processLine\<close>, once, is another text: the record is never parsed.
  This holds for every host \<open>h\<close>.
\<close>

theorem stream_cut_inside_character:
  "runAgent h [Stdout (bytes_of accent_head @ [0xC3, 0xA9] @ bytes_of accent_tail @ [0x0A])]
     = processLine h (text_of accent_head @ [0xE9] @ text_of accent_tail) start
   \<and> runAgent h [Stdout (bytes_of accent_head @ [0xC3]),
                 Stdout ([0xA9] @ bytes_of accent_tail @ [0x0A])]
     = processLine h (text_of accent_head @ [0xFFFD, 0xFFFD] @ text_of accent_tail) start
   \<and> text_of accent_head @ [0xFFFD, 0xFFFD] @ text_of accent_tail
     \<noteq> text_of accent_head @ [0xE9] @ text_of accent_tail"
proof -
  have h: "ascii accent_head" and t: "ascii accent_tail" by code_simp+
  have nh: "LF \<notin> set (text_of accent_head)" and nt: "LF \<notin> set (text_of accent_tail)"
    by code_simp+
  have tail: "toString (bytes_of accent_tail @ [0x0A]) = text_of accent_tail @ [LF]"
    using toString_ascii [OF t, of "[0x0A]"] by (simp add: LF_def)
  have whole: "toString (bytes_of accent_head @ [0xC3, 0xA9] @ bytes_of accent_tail @ [0x0A])
                 = (text_of accent_head @ [0xE9] @ text_of accent_tail) @ [LF]"
    using toString_ascii [OF h, of "[0xC3, 0xA9] @ bytes_of accent_tail @ [0x0A]"]
    by (simp add: tail continuation_def units_def low_def)
  have first: "toString (bytes_of accent_head @ [0xC3]) = text_of accent_head @ [0xFFFD]"
    using toString_ascii [OF h, of "[0xC3]"] by (simp add: REPLACEMENT_def)
  have second: "toString ([0xA9] @ bytes_of accent_tail @ [0x0A])
                  = [0xFFFD] @ text_of accent_tail @ [LF]"
    by (simp add: tail REPLACEMENT_def)
  have l1: "LF \<notin> set (text_of accent_head @ [0xE9] @ text_of accent_tail)"
    using nh nt by (simp add: LF_def)
  have l2: "LF \<notin> set (text_of accent_head @ [0xFFFD, 0xFFFD] @ text_of accent_tail)"
    using nh nt by (simp add: LF_def)
  have "runAgent h [Stdout (bytes_of accent_head @ [0xC3, 0xA9] @ bytes_of accent_tail @ [0x0A])]
     = processLine h (text_of accent_head @ [0xE9] @ text_of accent_tail) start"
    unfolding one_chunk whole by (rule feed_line [OF l1])
  moreover have "toString (bytes_of accent_head @ [0xC3])
                   @ toString ([0xA9] @ bytes_of accent_tail @ [0x0A])
                 = (text_of accent_head @ [0xFFFD, 0xFFFD] @ text_of accent_tail) @ [LF]"
    unfolding first second by simp
  then have "runAgent h [Stdout (bytes_of accent_head @ [0xC3]),
                 Stdout ([0xA9] @ bytes_of accent_tail @ [0x0A])]
     = processLine h (text_of accent_head @ [0xFFFD, 0xFFFD] @ text_of accent_tail) start"
    unfolding two_chunks by (simp only: feed_line [OF l2])
  ultimately show ?thesis by simp
qed





section \<open>Properties of the result extraction\<close>

lemma find_sub_Some: "find_sub pat s = Some (a, b) \<Longrightarrow> s = a @ pat @ b"
proof (induction s arbitrary: a)
  case Nil
  then show ?case by (simp split: if_splits)
next
  case (Cons c cs)
  show ?case
  proof (cases "prefix pat (c # cs)")
    case True
    then obtain r where r: "c # cs = pat @ r" by (auto simp: prefix_def)
    then have d: "drop (length pat) (c # cs) = r" by (metis append_eq_conv_conj)
    from True Cons.prems have "a = []" "b = drop (length pat) (c # cs)" by simp_all
    with d r show ?thesis by simp
  next
    case False
    with Cons.prems obtain a' where "find_sub pat cs = Some (a', b)" "a = c # a'"
      by (auto split: option.splits)
    with Cons.IH show ?thesis by simp
  qed
qed

lemma find_sub_None: "find_sub pat s = None \<Longrightarrow> \<not> sublist pat s"
proof (induction s)
  case Nil
  then show ?case by (simp split: if_splits)
next
  case (Cons c cs)
  then have np: "\<not> prefix pat (c # cs)" and "find_sub pat cs = None"
    by (auto split: if_splits option.splits)
  with Cons.IH have "\<not> sublist pat cs" by simp
  with np show ?case by (simp add: sublist_Cons_right)
qed

lemma find_sub_first:
  "(\<And>a' b'. a @ pat @ b = a' @ pat @ b' \<Longrightarrow> length a \<le> length a') \<Longrightarrow>
   find_sub pat (a @ pat @ b) = Some (a, b)"
proof (induction a)
  case Nil
  show ?case
  proof (cases "pat @ b")
    case Nil
    then show ?thesis by simp
  next
    case (Cons c cs)
    have "prefix pat (pat @ b)" by simp
    then have "prefix pat (c # cs)" using Cons by simp
    moreover have "drop (length pat) (c # cs) = b" using Cons by (metis append_eq_conv_conj)
    ultimately show ?thesis using Cons by simp
  qed
next
  case (Cons x a)
  have np: "\<not> prefix pat (x # a @ pat @ b)"
  proof
    assume "prefix pat (x # a @ pat @ b)"
    then obtain r where "(x # a) @ pat @ b = [] @ pat @ r" by (auto simp: prefix_def)
    from Cons.prems [OF this] show False by simp
  qed
  have "find_sub pat (a @ pat @ b) = Some (a, b)"
  proof (rule Cons.IH)
    fix a' b' assume "a @ pat @ b = a' @ pat @ b'"
    then have "(x # a) @ pat @ b = (x # a') @ pat @ b'" by simp
    from Cons.prems [OF this] show "length a \<le> length a'" by simp
  qed
  with np show ?case by simp
qed

text \<open>A literal whose last (or first) character occurs nowhere else in it cannot overlap itself.\<close>

lemma split_longer:
  assumes "xs @ ys = zs @ ts" "length zs \<le> length xs"
  shows "xs = zs @ drop (length zs) xs \<and> drop (length zs) xs @ ys = ts"
proof -
  have "take (length zs) (xs @ ys) = zs" using assms(1) by simp
  then have t: "take (length zs) xs = zs" using assms(2) by simp
  then have x: "xs = zs @ drop (length zs) xs" by (metis append_take_drop_id)
  have "drop (length zs) (xs @ ys) = ts" using assms(1) by simp
  then have "drop (length zs) xs @ ys = ts" using assms(2) by simp
  with x show ?thesis by simp
qed

lemma no_overlap:
  assumes pat: "pat \<noteq> []"
    and uniq: "last pat \<notin> set (butlast pat) \<or> hd pat \<notin> set (tl pat)"
    and nosub: "\<not> sublist pat pre"
    and eq: "pre @ pat @ rest = a @ pat @ b"
  shows "length pre \<le> length a"
proof (rule ccontr)
  assume "\<not> length pre \<le> length a"
  then have lt: "length a < length pre" by simp
  then have "length a \<le> length pre" by simp
  from split_longer [OF eq this] obtain p where p: "pre = a @ p" "p @ pat @ rest = pat @ b"
    by blast
  with lt have pne: "p \<noteq> []" by auto
  show False
  proof (cases "length pat \<le> length p")
    case True
    from split_longer [OF p(2) True] obtain u where "p = pat @ u" by blast
    with p(1) have "pre = a @ pat @ u" by simp
    then have "sublist pat pre" unfolding sublist_def by blast
    with nosub show False by simp
  next
    case False
    then have "length p \<le> length pat" by simp
    from split_longer [OF p(2) [symmetric] this] obtain q
      where q: "pat = p @ q" "q @ b = pat @ rest" by blast
    from q(1) False have qne: "q \<noteq> []" by auto
    from q(1) pne have "length q \<le> length pat" by simp
    from split_longer [OF q(2) [symmetric] this] obtain r where r: "pat = q @ r" by blast
    from r q(1) pne have rne: "r \<noteq> []" by auto
    have "last pat = last q" using q(1) qne by simp
    moreover have "butlast pat = q @ butlast r" using r rne by (metis butlast_append)
    ultimately have A: "last pat \<in> set (butlast pat)" using qne by simp
    have "hd pat = hd q" using r qne by (metis hd_append2)
    moreover have "tl pat = tl p @ q" using q(1) pne by (metis tl_append2)
    ultimately have B: "hd pat \<in> set (tl pat)" using qne by simp
    from A B uniq show False by simp
  qed
qed

lemma START_no_overlap:
  "last (PR_BODY_START @ [nl]) \<notin> set (butlast (PR_BODY_START @ [nl]))"
  by (simp add: PR_BODY_START_def nl_def)

lemma END_no_overlap: "hd (nl # PR_BODY_END) \<notin> set (tl (nl # PR_BODY_END))"
  by (simp add: PR_BODY_END_def nl_def)

lemma match_between:
  assumes "\<not> sublist (PR_BODY_START @ [nl]) pre" "\<not> sublist (nl # PR_BODY_END) body"
  shows "match_pr_body (pre @ (PR_BODY_START @ [nl]) @ body @ (nl # PR_BODY_END) @ post) = Some body"
proof -
  let ?rest = "body @ (nl # PR_BODY_END) @ post"
  have "find_sub (PR_BODY_START @ [nl]) (pre @ (PR_BODY_START @ [nl]) @ ?rest) = Some (pre, ?rest)"
    by (rule find_sub_first, rule no_overlap [OF _ _ assms(1)])
       (use START_no_overlap in auto)
  moreover have "find_sub (nl # PR_BODY_END) ?rest = Some (body, post)"
    by (rule find_sub_first, rule no_overlap [OF _ _ assms(2)])
       (use END_no_overlap in auto)
  ultimately show ?thesis by (simp add: match_pr_body_def)
qed

lemma match_needs_markers:
  assumes "match_pr_body out = Some body"
  shows "sublist PR_BODY_START out \<and> sublist PR_BODY_END out"
proof -
  from assms obtain before rest after where
    f1: "find_sub (PR_BODY_START @ [nl]) out = Some (before, rest)"
    and f2: "find_sub (nl # PR_BODY_END) rest = Some (body, after)"
    by (auto simp: match_pr_body_def split: option.splits)
  from find_sub_Some [OF f1] have o: "out = before @ PR_BODY_START @ [nl] @ rest" by simp
  from find_sub_Some [OF f2] have r: "rest = (body @ [nl]) @ PR_BODY_END @ after" by simp
  from o have "sublist PR_BODY_START out" unfolding sublist_def by blast
  moreover from o r have "out = (before @ PR_BODY_START @ [nl] @ body @ [nl]) @ PR_BODY_END @ after"
    by simp
  then have "sublist PR_BODY_END out" unfolding sublist_def by blast
  ultimately show ?thesis by simp
qed

text \<open>
  Claim C5, as stated, fails: an output that contains both markers with a body between
  them, but not each marker on a line of its own, does not match the pattern, and the
  default description is returned instead of the body.
\<close>

theorem pr_body_unmarked_counterexample:
  "sublist PR_BODY_START ''---PR_BODY_START--- Fix the parser ---PR_BODY_END---''
   \<and> sublist PR_BODY_END ''---PR_BODY_START--- Fix the parser ---PR_BODY_END---''
   \<and> extract_pr_body (Some 42) ''---PR_BODY_START--- Fix the parser ---PR_BODY_END---''
       = ''Resolves #42\<newline>\<newline>_Auto-generated by Vampire_''
   \<and> extract_pr_body (Some 42) ''---PR_BODY_START--- Fix the parser ---PR_BODY_END---''
       \<noteq> trim '' Fix the parser ''"
proof -
  have a: "sublist PR_BODY_START (PR_BODY_START @ '' Fix the parser ---PR_BODY_END---'')"
    unfolding sublist_def by (intro exI [of _ "[]"] exI [of _ "'' Fix the parser ---PR_BODY_END---''"]) simp
  have b: "sublist PR_BODY_END (''---PR_BODY_START--- Fix the parser '' @ PR_BODY_END)"
    unfolding sublist_def by (intro exI [of _ "''---PR_BODY_START--- Fix the parser ''"] exI [of _ "[]"]) simp
  have c: "extract_pr_body (Some 42) ''---PR_BODY_START--- Fix the parser ---PR_BODY_END---''
       = ''Resolves #42\<newline>\<newline>_Auto-generated by Vampire_''" by code_simp
  have d: "trim '' Fix the parser '' = ''Fix the parser''" by code_simp
  from a b c d show ?thesis by (simp add: PR_BODY_START_def PR_BODY_END_def)
qed

text \<open>
  Claim C5, amended.  When the output has the form
  \<open>pre @ START @ newline @ body @ newline @ END @ post\<close>, where \<open>pre\<close> holds no
  \<open>START @ newline\<close> and \<open>body\<close> holds no \<open>newline @ END\<close>, the change description
  is the body with its leading and trailing white space removed, unless that is empty,
  in which case it is the default.  An output that lacks one of the markers gets the
  default.  The default names the issue number when the job has one.
\<close>

theorem pr_body_between_line_markers:
  "(\<forall>pre body post.
       out = pre @ PR_BODY_START @ [nl] @ body @ [nl] @ PR_BODY_END @ post
       \<and> \<not> sublist (PR_BODY_START @ [nl]) pre \<and> \<not> sublist (nl # PR_BODY_END) body
       \<longrightarrow> extract_pr_body issue out
             = (if trim body = [] then default_pr_body issue else trim body))
   \<and> (\<not> sublist PR_BODY_START out \<or> \<not> sublist PR_BODY_END out
        \<longrightarrow> extract_pr_body issue out = default_pr_body issue)
   \<and> default_pr_body None = ''_Auto-generated by Vampire_''
   \<and> (\<forall>n. default_pr_body (Some n)
            = ''Resolves #'' @ show_int n @ ''\<newline>\<newline>_Auto-generated by Vampire_'')"
proof (intro conjI allI impI)
  fix pre body post
  assume a: "out = pre @ PR_BODY_START @ [nl] @ body @ [nl] @ PR_BODY_END @ post
       \<and> \<not> sublist (PR_BODY_START @ [nl]) pre \<and> \<not> sublist (nl # PR_BODY_END) body"
  then have "match_pr_body out = Some body"
    using match_between [of pre body post] by simp
  then show "extract_pr_body issue out
             = (if trim body = [] then default_pr_body issue else trim body)"
    by (simp add: extract_pr_body_def)
next
  assume "\<not> sublist PR_BODY_START out \<or> \<not> sublist PR_BODY_END out"
  then have "match_pr_body out = None"
    using match_needs_markers [of out] by (cases "match_pr_body out") auto
  then show "extract_pr_body issue out = default_pr_body issue"
    by (simp add: extract_pr_body_def)
next
  show "default_pr_body None = ''_Auto-generated by Vampire_''"
    by (simp add: default_pr_body_def)
next
  fix n
  show "default_pr_body (Some n)
            = ''Resolves #'' @ show_int n @ ''\<newline>\<newline>_Auto-generated by Vampire_''"
    by (simp add: default_pr_body_def nl_def)
qed

theorem pr_body_between_line_markers_witness:
  "extract_pr_body (Some 42)
     (''Done.\<newline>'' @ PR_BODY_START @ [nl] @ ''Resolves #42\<newline>\<newline>## Changes\<newline>parser fixed\<newline>''
        @ [nl] @ PR_BODY_END @ ''\<newline>'')
   = ''Resolves #42\<newline>\<newline>## Changes\<newline>parser fixed''
   \<and> extract_pr_body None ''I could not find anything to change.'' = ''_Auto-generated by Vampire_''"
proof -
  let ?pre = "''Done.\<newline>''"
  let ?body = "''Resolves #42\<newline>\<newline>## Changes\<newline>parser fixed\<newline>''"
  let ?out = "?pre @ PR_BODY_START @ [nl] @ ?body @ [nl] @ PR_BODY_END @ ''\<newline>''"
  have h1: "\<not> sublist (PR_BODY_START @ [nl]) ?pre" by code_simp
  have h2: "\<not> sublist (nl # PR_BODY_END) ?body" by code_simp
  have t: "trim ?body = ''Resolves #42\<newline>\<newline>## Changes\<newline>parser fixed''" by code_simp
  have h3: "\<not> sublist PR_BODY_START ''I could not find anything to change.''" by code_simp
  have a: "extract_pr_body (Some 42) ?out = (if trim ?body = [] then default_pr_body (Some 42) else trim ?body)"
    using pr_body_between_line_markers [of ?out "Some 42", THEN conjunct1, rule_format, of ?pre ?body "''\<newline>''"]
      h1 h2 by blast
  have b: "extract_pr_body None ''I could not find anything to change.'' = default_pr_body None"
    using pr_body_between_line_markers [of "''I could not find anything to change.''" None,
        THEN conjunct2, THEN conjunct1] h3 by blast
  have c: "default_pr_body None = ''_Auto-generated by Vampire_''"
    by (simp add: default_pr_body_def)
  from a b c t show ?thesis by simp
qed


section \<open>Properties of the live log stream\<close>

lemma deliver_deaf:
  "on_log r = None \<Longrightarrow> on_done r = None \<Longrightarrow> deliver f r ev = r"
  by (cases ev) (simp_all add: Let_def)

lemma deliver_all_deaf:
  "on_log r = None \<Longrightarrow> on_done r = None \<Longrightarrow> foldl (deliver f) r evs = r"
  by (induction evs) (simp_all add: deliver_deaf)

text \<open>
  Claim C8.  When the job that a subscriber asks for is found and its persisted status
  is not \<^verbatim>\<open>running\<close>, the route answers 200 and writes exactly one frame: the text
  \<^verbatim>\<open>event: done\<close>, a newline, \<^verbatim>\<open>data: \<close> followed by the persisted status string, and
  two newlines.  It then ends the stream.  No written frame is a data frame, no
  handler is registered on the log bus, and so whatever is emitted or closed
  afterwards leaves the response as it is: no log line is ever delivered.
\<close>

theorem terminal_attach_done_only:
  "row_status job \<noteq> ''running'' \<Longrightarrow>
   \<exists>r. log_route (Some job) = Streaming r
     \<and> head r = Some 200
     \<and> writes r = [''event: done\<newline>data: '' @ row_status job @ ''\<newline>\<newline>'']
     \<and> ended r
     \<and> on_log r = None \<and> on_done r = None
     \<and> \<not> list_ex is_data_frame (writes r)
     \<and> (\<forall>evs. foldl (deliver fmt) r evs = r)"
  by (simp add: log_route_def sse_write_def Let_def deliver_all_deaf is_data_frame_def)

theorem terminal_attach_done_only_witness:
  "(\<exists>r. log_route (Some \<lparr>row_id = 7, row_status = ''completed''\<rparr>) = Streaming r
       \<and> writes r = [''event: done\<newline>data: completed\<newline>\<newline>''] \<and> ended r
       \<and> foldl (deliver id) r [Emitted ''job:7'' ''late line'', Emitted ''job:7:done'' ''failed'']
            = r)
   \<and> (\<exists>r. log_route (Some \<lparr>row_id = 7, row_status = ''failed''\<rparr>) = Streaming r
       \<and> writes r = [''event: done\<newline>data: failed\<newline>\<newline>''] \<and> ended r)
   \<and> (\<exists>r. log_route (Some \<lparr>row_id = 7, row_status = ''cancelled''\<rparr>) = Streaming r
       \<and> writes r = [''event: done\<newline>data: cancelled\<newline>\<newline>''] \<and> ended r)"
proof -
  have a: "row_status \<lparr>row_id = 7, row_status = ''completed''\<rparr> \<noteq> ''running''" by simp
  have b: "row_status \<lparr>row_id = 7, row_status = ''failed''\<rparr> \<noteq> ''running''" by simp
  have c: "row_status \<lparr>row_id = 7, row_status = ''cancelled''\<rparr> \<noteq> ''running''" by simp
  from terminal_attach_done_only [OF a, of id] terminal_attach_done_only [OF b, of id]
    terminal_attach_done_only [OF c, of id]
  show ?thesis by auto
qed


section \<open>Properties of the worker\<close>

lemma emitsD:
  "emits P m \<Longrightarrow> m w = (r, w1) \<Longrightarrow> \<exists>new. trace w1 = trace w @ new \<and> list_all P new"
  unfolding emits_def by (metis snd_conv)

lemma emits_mono: "emits P m \<Longrightarrow> (\<And>i. P i \<Longrightarrow> Q i) \<Longrightarrow> emits Q m"
  unfolding emits_def list_all_iff by fastforce

lemma emits_ret [emits_intros]: "emits P (ret x)"
  by (simp add: emits_def ret_def)

lemma emits_throw [emits_intros]: "emits P (throw msg)"
  by (simp add: emits_def throw_def)

lemma emits_bind [emits_intros]:
  assumes "emits P m" "\<And>x. emits P (f x)"
  shows "emits P (bind m f)"
  unfolding emits_def
proof
  fix w
  obtain r w1 where m: "m w = (r, w1)" by (cases "m w")
  from emitsD [OF assms(1) m] obtain n1 where n1: "trace w1 = trace w @ n1" "list_all P n1" by blast
  show "\<exists>new. trace (snd (bind m f w)) = trace w @ new \<and> list_all P new"
  proof (cases r)
    case (Value x)
    obtain r2 w2 where f: "f x w1 = (r2, w2)" by (cases "f x w1")
    from emitsD [OF assms(2) f] obtain n2 where "trace w2 = trace w1 @ n2" "list_all P n2" by blast
    with n1 m Value f show ?thesis by (intro exI [of _ "n1 @ n2"]) (simp add: bind_def)
  next
    case (Throw e)
    with n1 m show ?thesis by (intro exI [of _ n1]) (simp add: bind_def)
  qed
qed

lemma emits_andThen [emits_intros]: "emits P m \<Longrightarrow> emits P n \<Longrightarrow> emits P (andThen m n)"
  unfolding andThen_def by (rule emits_bind)

lemma emits_steps [emits_intros]: "(\<And>m. m \<in> set ms \<Longrightarrow> emits P m) \<Longrightarrow> emits P (steps ms)"
  by (induction ms) (auto intro: emits_intros)

lemma emits_try_catch [emits_intros]:
  assumes "emits P m" "\<And>x. emits P (h x)"
  shows "emits P (try_catch m h)"
  unfolding emits_def
proof
  fix w
  obtain r w1 where m: "m w = (r, w1)" by (cases "m w")
  from emitsD [OF assms(1) m] obtain n1 where n1: "trace w1 = trace w @ n1" "list_all P n1" by blast
  show "\<exists>new. trace (snd (try_catch m h w)) = trace w @ new \<and> list_all P new"
  proof (cases r)
    case (Throw x)
    obtain r2 w2 where f: "h x w1 = (r2, w2)" by (cases "h x w1")
    from emitsD [OF assms(2) f] obtain n2 where "trace w2 = trace w1 @ n2" "list_all P n2" by blast
    with n1 m Throw f show ?thesis by (intro exI [of _ "n1 @ n2"]) (simp add: try_catch_def)
  next
    case (Value e)
    with n1 m show ?thesis by (intro exI [of _ n1]) (simp add: try_catch_def)
  qed
qed

lemma snd_swallow: "snd (swallow m w) = snd (m w)"
  by (simp add: swallow_def split: prod.splits outcome.splits)

lemma emits_swallow [emits_intros]: "emits P m \<Longrightarrow> emits P (swallow m)"
  by (simp add: emits_def snd_swallow)

lemma emits_log_line [emits_intros]: "emits P (log_line job t)"
  by (simp add: emits_def log_line_def)

lemma emits_logs [emits_intros]: "emits P (logs job ts)"
  unfolding logs_def by (rule emits_steps) (auto intro: emits_intros)

lemma emits_set_cloneDir [emits_intros]: "emits P (set_cloneDir d)"
  by (simp add: emits_def set_cloneDir_def)

lemma emits_emit [emits_intros]: "emits P (emit topic payload)"
  by (simp add: emits_def emit_def)

lemma emits_exec [emits_intros]: "(\<And>r. P (Exec cmd args cwd r)) \<Longrightarrow> emits P (exec e cmd args cwd)"
  by (simp add: emits_def exec_def Let_def split: result.splits)

lemma emits_clone [emits_intros]: "(\<And>r. P (Exec ''git'' args None r)) \<Longrightarrow> emits P (clone e args d)"
  by (simp add: emits_def clone_def exec_def Let_def split: result.splits)

lemma emits_isCancelled [emits_intros]: "(\<And>r. P (StatusRead s r)) \<Longrightarrow> emits P (isCancelled e s)"
  by (simp add: emits_def isCancelled_def Let_def)

lemma emits_checkpoint [emits_intros]: "(\<And>r. P (StatusRead Checkpoint r)) \<Longrightarrow> emits P (checkpoint e)"
  unfolding checkpoint_def by (auto intro!: emits_intros)

lemma emits_update_title [emits_intros]: "(\<And>r. P (TitleUpdate t r)) \<Longrightarrow> emits P (update_title e t)"
  by (simp add: emits_def update_title_def Let_def split: result.splits)

lemma emits_update_final [emits_intros]: "(\<And>r. P (FinalUpdate d r)) \<Longrightarrow> emits P (update_final e d)"
  by (simp add: emits_def update_final_def Let_def split: result.splits)

lemma emits_existsSync [emits_intros]: "(\<And>b. P (ExistsSync p b)) \<Longrightarrow> emits P (existsSync e p)"
  by (simp add: emits_def existsSync_def Let_def)

lemma emits_readFileSync [emits_intros]: "(\<And>r. P (ReadFile p r)) \<Longrightarrow> emits P (readFileSync e p)"
  by (simp add: emits_def readFileSync_def Let_def split: result.splits)

lemma emits_rm [emits_intros]: "(\<And>r. P (Rm d r)) \<Longrightarrow> emits P (rm e d)"
  by (simp add: emits_def rm_def Let_def split: result.splits)

lemma emits_getProvider [emits_intros]: "emits P (getProvider name)"
  unfolding getProvider_def by (auto intro: emits_intros)

lemma emits_callback [emits_intros]: "emits P (callback_of e job ev)"
  by (cases ev) (simp_all add: onToolUse_def onText_def Let_def emits_log_line)

lemma steps_trace: "trace (snd (steps (map (callback_of e job) evs) w)) = trace w"
proof -
  have "emits (\<lambda>i. False) (steps (map (callback_of e job) evs))"
    by (rule emits_steps) (auto simp: emits_callback)
  then obtain new where n: "trace (snd (steps (map (callback_of e job) evs) w)) = trace w @ new"
    "list_all (\<lambda>i. False) new" unfolding emits_def by blast
  from n(2) have "new = []" by (cases new) simp_all
  with n(1) show ?thesis by simp
qed

lemma emits_run_agent [emits_intros]:
  "(\<And>ev r. P (AgentRun p cwd ev r)) \<Longrightarrow> emits P (run_agent e job p cwd)"
  unfolding emits_def
proof
  fix w
  assume P: "\<And>ev r. P (AgentRun p cwd ev r)"
  obtain evs r where a: "agent_at e (tick w) = (evs, r)" by (cases "agent_at e (tick w)")
  let ?w1 = "w\<lparr>trace := trace w @ [AgentRun p cwd evs r]\<rparr>"
  have "trace (snd (run_agent e job p cwd w)) = trace (snd (steps (map (callback_of e job) evs) ?w1))"
    by (simp add: run_agent_def a split: prod.splits result.splits)
  also have "\<dots> = trace w @ [AgentRun p cwd evs r]" by (simp add: steps_trace)
  finally show "\<exists>new. trace (snd (run_agent e job p cwd w)) = trace w @ new \<and> list_all P new"
    using P by simp
qed

lemma emits_if [emits_intros]: "emits P a \<Longrightarrow> emits P b \<Longrightarrow> emits P (if c then a else b)"
  by simp

lemma emits_case_prod [emits_intros]:
  "(\<And>a b. emits P (f a b)) \<Longrightarrow> emits P (case x of (a, b) \<Rightarrow> f a b)"
  by (cases x) simp

lemma emits_case_option [emits_intros]:
  "emits P a \<Longrightarrow> (\<And>x. emits P (f x)) \<Longrightarrow> emits P (case y of None \<Rightarrow> a | Some x \<Rightarrow> f x)"
  by (cases y) simp_all

lemma emits_Let [emits_intros]: "emits P (f x) \<Longrightarrow> emits P (Let x f)"
  by simp

lemmas emits_rules = emits_ret emits_throw emits_bind emits_andThen emits_try_catch emits_swallow
  emits_log_line emits_logs emits_set_cloneDir emits_emit emits_exec emits_clone emits_isCancelled
  emits_checkpoint emits_update_title emits_update_final emits_existsSync emits_readFileSync
  emits_rm emits_getProvider emits_run_agent emits_if emits_case_prod emits_case_option emits_Let

lemma emits_header: "emits P (header e job fu)"
  unfolding header_def by (rule emits_logs)

lemma emits_resolve_context: "emits plain_setup (resolve_context e job project fu)"
  unfolding resolve_context_def by (intro emits_rules) simp_all

lemma emits_fetch_latest: "emits plain_setup (fetch_latest e job project fu b)"
  unfolding fetch_latest_def by (intro emits_rules) simp_all

lemma emits_prepare_workspace: "emits plain_setup (prepare_workspace e job project fu b)"
  unfolding prepare_workspace_def by (intro emits_rules) simp_all

lemma emits_build_prompt: "emits plain_setup (build_prompt e job project fu t b n d)"
  unfolding build_prompt_def by (intro emits_rules) simp_all

lemma emits_check_changes: "emits plain_loop (check_changes e d)"
  unfolding check_changes_def by (intro emits_rules) simp_all

lemma emits_commit_and_push: "emits commit_call (commit_and_push e job project l)"
  unfolding commit_and_push_def by (intro emits_rules) simp_all

lemma emits_extract_results: "emits commit_call (extract_results e job l out)"
  unfolding extract_results_def by (intro emits_rules) simp_all

lemma agent_loop_unfold:
  "agent_loop e job project l a out =
     (if a \<le> MAX_RETRY + 1
      then bind (agent_attempt e job project l a out)
             (\<lambda>p. case p of Break x \<Rightarrow> ret x | Again x \<Rightarrow> agent_loop e job project l (Suc a) x)
      else ret out)"
  by (rule ext)
     (simp add: agent_loop.simps bind_def ret_def split: prod.splits outcome.splits pass.splits)

lemma loop_rule:
  assumes r: "\<And>x. X (ret x)"
    and b: "\<And>m f. Y m \<Longrightarrow> (\<And>p. X (f p)) \<Longrightarrow> X (bind m f)"
    and a: "\<And>a out. Y (agent_attempt e job project l a out)"
  shows "X (agent_loop e job project l a out)"
proof (induction "MAX_RETRY + 2 - a" arbitrary: a out)
  case 0
  then have "\<not> a \<le> MAX_RETRY + 1" by simp
  then show ?case by (subst agent_loop_unfold) (simp add: r)
next
  case (Suc k)
  then have le: "a \<le> MAX_RETRY + 1" and k: "k = MAX_RETRY + 2 - Suc a" by simp_all
  have "X (case p of Break x \<Rightarrow> ret x | Again x \<Rightarrow> agent_loop e job project l (Suc a) x)" for p
    by (cases p) (simp_all add: r Suc.hyps(1) [OF k])
  then have "X (bind (agent_attempt e job project l a out)
             (\<lambda>p. case p of Break x \<Rightarrow> ret x | Again x \<Rightarrow> agent_loop e job project l (Suc a) x))"
    by (intro b a)
  with le show ?case by (subst agent_loop_unfold) simp
qed

lemma chkD:
  assumes "chk m" "m w = (r, w1)"
  obtains new where "trace w1 = trace w @ new"
    "\<And>pre post. new = pre @ the_cancel # post \<Longrightarrow> post = [] \<and> r = Throw ''cancelled''"
proof -
  from assms(1) obtain new where n: "trace (snd (m w)) = trace w @ new"
    "\<forall>pre post. new = pre @ the_cancel # post \<longrightarrow> post = [] \<and> fst (m w) = Throw ''cancelled''"
    unfolding chk_def by blast
  show thesis by (rule that [of new]) (use n assms(2) in auto)
qed

lemma chk_emits: "emits no_checkpoint m \<Longrightarrow> chk m"
  unfolding chk_def emits_def
proof
  fix w
  assume "\<forall>w. \<exists>new. trace (snd (m w)) = trace w @ new \<and> list_all no_checkpoint new"
  then obtain new where n: "trace (snd (m w)) = trace w @ new" "list_all no_checkpoint new" by blast
  have "new \<noteq> pre @ the_cancel # post" for pre post
    using n(2) by (auto simp: the_cancel_def list_all_iff)
  with n(1) show "\<exists>new. trace (snd (m w)) = trace w @ new
        \<and> (\<forall>pre post. new = pre @ the_cancel # post \<longrightarrow> post = [] \<and> fst (m w) = Throw ''cancelled'')"
    by blast
qed

lemma split_at_cancel:
  assumes "n1 @ n2 = pre @ c # post"
  shows "(\<exists>p1. n1 = pre @ c # p1 \<and> post = p1 @ n2) \<or> (\<exists>p2. pre = n1 @ p2 \<and> n2 = p2 @ c # post)"
  using assms by (auto simp: append_eq_append_conv2 append_eq_Cons_conv Cons_eq_append_conv)

lemma chk_bind:
  assumes "chk m" "\<And>x. chk (f x)"
  shows "chk (bind m f)"
  unfolding chk_def
proof
  fix w
  obtain r w1 where m: "m w = (r, w1)" by (cases "m w")
  from chkD [OF assms(1) m] obtain n1 where n1: "trace w1 = trace w @ n1"
    "\<And>pre post. n1 = pre @ the_cancel # post \<Longrightarrow> post = [] \<and> r = Throw ''cancelled''" by blast
  show "\<exists>new. trace (snd (bind m f w)) = trace w @ new
        \<and> (\<forall>pre post. new = pre @ the_cancel # post \<longrightarrow> post = [] \<and> fst (bind m f w) = Throw ''cancelled'')"
  proof (cases r)
    case (Throw x)
    then have b: "bind m f w = (Throw x, w1)" using m by (simp add: bind_def)
    show ?thesis using n1 Throw by (intro exI [of _ n1]) (simp add: b)
  next
    case (Value x)
    obtain r2 w2 where f: "f x w1 = (r2, w2)" by (cases "f x w1")
    from chkD [OF assms(2) f] obtain n2 where n2: "trace w2 = trace w1 @ n2"
      "\<And>pre post. n2 = pre @ the_cancel # post \<Longrightarrow> post = [] \<and> r2 = Throw ''cancelled''" by blast
    have b: "bind m f w = (r2, w2)" using m Value f by (simp add: bind_def)
    have "post = [] \<and> r2 = Throw ''cancelled''" if "n1 @ n2 = pre @ the_cancel # post" for pre post
    proof -
      from split_at_cancel [OF that] show ?thesis
      proof
        assume "\<exists>p1. n1 = pre @ the_cancel # p1 \<and> post = p1 @ n2"
        then obtain p1 where "n1 = pre @ the_cancel # p1" by blast
        from n1(2) [OF this] Value show ?thesis by simp
      next
        assume "\<exists>p2. pre = n1 @ p2 \<and> n2 = p2 @ the_cancel # post"
        then obtain p2 where "n2 = p2 @ the_cancel # post" by blast
        from n2(2) [OF this] show ?thesis .
      qed
    qed
    then show ?thesis using n1(1) n2(1) by (intro exI [of _ "n1 @ n2"]) (simp add: b)
  qed
qed

lemma chk_andThen: "chk m \<Longrightarrow> chk n \<Longrightarrow> chk (andThen m n)"
  unfolding andThen_def by (rule chk_bind)

lemma chk_if: "chk a \<Longrightarrow> chk b \<Longrightarrow> chk (if c then a else b)"
  by simp

lemma chk_case_prod: "(\<And>a b. chk (f a b)) \<Longrightarrow> chk (case x of (a, b) \<Rightarrow> f a b)"
  by (cases x) simp

lemma chk_Let: "chk (f x) \<Longrightarrow> chk (Let x f)"
  by simp

lemma chk_checkpoint: "chk (checkpoint e)"
  unfolding chk_def
proof
  fix w
  let ?r = "status_at e (tick w)"
  have t: "trace (snd (checkpoint e w)) = trace w @ [StatusRead Checkpoint ?r]"
    by (simp add: checkpoint_def bind_def isCancelled_def Let_def throw_def ret_def)
  have "post = [] \<and> fst (checkpoint e w) = Throw ''cancelled''"
    if "[StatusRead Checkpoint ?r] = pre @ the_cancel # post" for pre post
  proof -
    from that have "pre = []" "post = []" "?r = Found ''cancelled''"
      by (auto simp: Cons_eq_append_conv the_cancel_def)
    then show ?thesis
      by (simp add: checkpoint_def bind_def isCancelled_def Let_def throw_def ret_def)
  qed
  with t show "\<exists>new. trace (snd (checkpoint e w)) = trace w @ new
        \<and> (\<forall>pre post. new = pre @ the_cancel # post \<longrightarrow> post = [] \<and> fst (checkpoint e w) = Throw ''cancelled'')"
    by blast
qed

lemmas chk_rules = chk_bind chk_andThen chk_if chk_case_prod chk_Let chk_checkpoint
  chk_emits [OF emits_ret] chk_emits [OF emits_throw] chk_emits [OF emits_logs]
  chk_emits [OF emits_log_line] chk_emits [OF emits_getProvider] chk_emits [OF emits_header]

lemma plain_setup_call: "plain_setup i \<Longrightarrow> setup_call i"
  by (simp add: setup_call_def)

lemma plain_loop_call: "plain_loop i \<Longrightarrow> loop_call i"
  by (simp add: loop_call_def)

lemma plain_setup_quiet: "plain_setup i \<Longrightarrow> no_checkpoint i"
  by (cases i) simp_all

lemma plain_loop_quiet: "plain_loop i \<Longrightarrow> no_checkpoint i"
  by (cases i) simp_all

lemmas setup_stage_emits = emits_resolve_context emits_fetch_latest emits_prepare_workspace
  emits_build_prompt

lemma emits_before_agent: "emits setup_call (before_agent e job project fu)"
  unfolding before_agent_def
  by (intro emits_rules emits_header setup_stage_emits [THEN emits_mono, OF plain_setup_call])
     (simp_all add: setup_call_def)

lemma chk_before_agent: "chk (before_agent e job project fu)"
  unfolding before_agent_def
  by (intro chk_rules setup_stage_emits [THEN emits_mono, THEN chk_emits, OF plain_setup_quiet])

lemma emits_plain_attempt_parts:
  "emits plain_loop (run_agent e job p cwd)"
  "emits plain_loop (swallow (exec e ''gh'' [''issue'', ''comment'', n, ''--body'', b, ''--repo'', u] d))"
  by (intro emits_rules; simp)+

lemma emits_agent_attempt: "emits loop_call (agent_attempt e job project l a out)"
  unfolding agent_attempt_def
  by (intro emits_rules emits_check_changes [THEN emits_mono, OF plain_loop_call]
        emits_plain_attempt_parts [THEN emits_mono, OF plain_loop_call])
     (simp_all add: loop_call_def)

lemma chk_agent_attempt: "chk (agent_attempt e job project l a out)"
  unfolding agent_attempt_def
  by (intro chk_rules emits_check_changes [THEN emits_mono, THEN chk_emits, OF plain_loop_quiet]
        emits_plain_attempt_parts [THEN emits_mono, THEN chk_emits, OF plain_loop_quiet])

lemma emits_agent_loop: "emits loop_call (agent_loop e job project l a out)"
  by (rule loop_rule [where Y = "emits loop_call"]) (intro emits_rules emits_agent_attempt; assumption?)+

lemma chk_agent_loop: "chk (agent_loop e job project l a out)"
  by (rule loop_rule [where Y = chk]) (intro chk_rules chk_agent_attempt; assumption?)+

lemma emits_until_commit: "emits early_call (until_commit e job project fu)"
  unfolding until_commit_def
  by (intro emits_rules emits_before_agent [THEN emits_mono] emits_agent_loop [THEN emits_mono])
     (auto simp: early_call_def setup_call_def loop_call_def)

lemma chk_until_commit: "chk (until_commit e job project fu)"
  unfolding until_commit_def
  by (intro chk_rules chk_before_agent chk_agent_loop)

lemma steps_logs:
  "steps (map (log_line job) ts) w =
     (Value (), w\<lparr>logged := logged w @ ts,
                  published := published w @ map (\<lambda>t. (log_topic (j_id job), t @ [nl])) ts\<rparr>)"
  by (induction ts arbitrary: w) (simp_all add: ret_def andThen_def bind_def log_line_def)

lemma logs_eq:
  "logs job ts w =
     (Value (), w\<lparr>logged := logged w @ ts,
                  published := published w @ map (\<lambda>t. (log_topic (j_id job), t @ [nl])) ts\<rparr>)"
  by (simp add: logs_def steps_logs)

lemmas run_simps = bind_def andThen_def ret_def throw_def try_catch_def swallow_def
  exec_def clone_def isCancelled_def checkpoint_def update_title_def existsSync_def
  readFileSync_def rm_def set_cloneDir_def log_line_def logs_eq tick_def Let_def

lemma finally_block_eq:
  "finally_block e job w =
     (Value (),
      if given (cloneDir w) then
        (case command e (length (trace w)) of
           Done x \<Rightarrow>
             w\<lparr>trace := trace w @ [Rm (or_else (cloneDir w) []) (Done x)],
               dirs := dirs w - {or_else (cloneDir w) []},
               logged := logged w @ [[], ''Cleaning up workspace...''],
               published := published w
                  @ map (\<lambda>t. (log_topic (j_id job), t @ [nl])) [[], ''Cleaning up workspace...'']\<rparr>
         | Failed msg \<Rightarrow> w\<lparr>trace := trace w @ [Rm (or_else (cloneDir w) []) (Failed msg)]\<rparr>)
      else w)"
  by (simp add: finally_block_def swallow_def andThen_def bind_def rm_def tick_def Let_def logs_eq
      split: result.splits)

lemma cleaned_trace:
  "trace (cleaned e job w) =
     trace w @ (if given (cloneDir w)
                then [Rm (or_else (cloneDir w) []) (command e (length (trace w)))] else [])"
  by (simp add: cleaned_def finally_block_eq split: result.splits)

lemma cleaned_cloneDir: "cloneDir (cleaned e job w) = cloneDir w"
  by (simp add: cleaned_def finally_block_eq split: result.splits)

lemma cleaned_dirs:
  "dirs (cleaned e job w) =
     (if given (cloneDir w) \<and> (\<exists>x. command e (length (trace w)) = Done x)
      then dirs w - {or_else (cloneDir w) []} else dirs w)"
  by (simp add: cleaned_def finally_block_eq split: result.splits)

lemma cleaned_logged:
  "logged (cleaned e job w) =
     logged w @ (if given (cloneDir w) \<and> (\<exists>x. command e (length (trace w)) = Done x)
                 then [[], ''Cleaning up workspace...''] else [])"
  by (simp add: cleaned_def finally_block_eq split: result.splits)

lemma noted_simps:
  "trace (noted job msg w) = trace w" "cloneDir (noted job msg w) = cloneDir w"
  "dirs (noted job msg w) = dirs w" "logged (noted job msg w) = logged w @ [[], ''Error: '' @ msg]"
  by (simp_all add: noted_def logs_eq)

lemma workerPromise_eq:
  "workerPromise e job project fu w =
     (case try_block e job project fu w of
        (Value res, w0) \<Rightarrow> (Value res, cleaned e job w0)
      | (Throw msg, w0) \<Rightarrow>
          if msg = ''cancelled'' then (Value cancelled_result, cleaned e job w0)
          else (Throw msg, cleaned e job (noted job msg w0)))"
  by (simp add: workerPromise_def try_catch_def catch_block_def cleaned_def noted_def ret_def
      andThen_def bind_def throw_def logs_eq
      split: prod.splits outcome.splits)

text \<open>The handlers.\<close>

lemma persist_eq:
  "persist e s a w =
     (Value (), w\<lparr>trace := trace w @ [FinalUpdate \<lparr>fd_status = s, fd_log = logBuffer w, fd_artifacts = a\<rparr>
                                        (command e (length (trace w)))]\<rparr>)"
  by (simp add: persist_def swallow_def update_final_def tick_def Let_def split: result.splits)

lemma announce_eq:
  "announce job s w =
     (Value s, w\<lparr>published := published w
        @ [(log_topic (j_id job), [nl] @ ''[worker exited: '' @ s @ '']''), (done_topic (j_id job), s)]\<rparr>)"
  by (simp add: announce_def andThen_def bind_def emit_def ret_def)

lemma then_handler_cancelled:
  "r_status res = ''cancelled'' \<Longrightarrow>
   fst (then_handler e job res w) = Value ''cancelled''
   \<and> trace (snd (then_handler e job res w)) =
       trace w @ [FinalUpdate \<lparr>fd_status = ''cancelled'', fd_log = logBuffer w,
                                fd_artifacts = Some (arts_of res)\<rparr> (command e (length (trace w)))]
   \<and> logged (snd (then_handler e job res w)) = logged w
   \<and> cloneDir (snd (then_handler e job res w)) = cloneDir w
   \<and> dirs (snd (then_handler e job res w)) = dirs w"
  by (simp add: then_handler_def bind_def andThen_def ret_def persist_eq announce_eq arts_of_def)

lemma then_handler_reread:
  "r_status res \<noteq> ''cancelled'' \<Longrightarrow>
   (let s = status_at e (length (trace w));
        final = (if s = Found ''cancelled'' then ''cancelled'' else r_status res)
    in fst (then_handler e job res w) = Value final
     \<and> trace (snd (then_handler e job res w)) =
         trace w @ [StatusRead Finalization s,
                    FinalUpdate \<lparr>fd_status = final, fd_log = logBuffer w,
                                 fd_artifacts = Some (arts_of res)\<rparr>
                      (command e (Suc (length (trace w))))]
     \<and> logged (snd (then_handler e job res w)) = logged w
     \<and> cloneDir (snd (then_handler e job res w)) = cloneDir w
     \<and> dirs (snd (then_handler e job res w)) = dirs w)"
  by (simp add: then_handler_def bind_def andThen_def ret_def persist_eq announce_eq arts_of_def
      isCancelled_def tick_def Let_def logBuffer_def)

lemma catch_handler_reread:
  "(let s = status_at e (length (trace w));
        final = (if s = Found ''cancelled'' then ''cancelled'' else ''failed'')
    in fst (catch_handler e job msg w) = Value final
     \<and> trace (snd (catch_handler e job msg w)) =
         trace w @ [StatusRead Finalization s,
                    FinalUpdate \<lparr>fd_status = final, fd_log = logBuffer w, fd_artifacts = None\<rparr>
                      (command e (Suc (length (trace w))))]
     \<and> logged (snd (catch_handler e job msg w)) = logged w
     \<and> cloneDir (snd (catch_handler e job msg w)) = cloneDir w
     \<and> dirs (snd (catch_handler e job msg w)) = dirs w)"
  by (simp add: catch_handler_def bind_def andThen_def ret_def persist_eq announce_eq
      isCancelled_def tick_def Let_def logBuffer_def)

lemma runWorker_eq:
  "runWorker e job project fu =
     (case try_block e job project fu fresh of
        (Value res, w0) \<Rightarrow> then_handler e job res (cleaned e job w0)
      | (Throw msg, w0) \<Rightarrow>
          if msg = ''cancelled'' then then_handler e job cancelled_result (cleaned e job w0)
          else catch_handler e job msg (cleaned e job (noted job msg w0)))"
  by (simp add: runWorker_def workerPromise_eq split: prod.splits outcome.splits)

lemma count_simps [simp]:
  "count P [] = 0" "count P (x # xs) = (if P x then Suc (count P xs) else count P xs)"
  "count P (xs @ ys) = count P xs + count P ys"
  by (simp_all add: count_def)

lemma show_nat_2: "show_nat 2 = ''2''"
  by code_simp

lemma run_agent_eq:
  "run_agent e job p cwd w =
     (case agent_at e (length (trace w)) of
        (evs, r) \<Rightarrow>
          (case r of Done out \<Rightarrow> Value out | Failed msg \<Rightarrow> Throw msg,
           snd (steps (map (callback_of e job) evs) (w\<lparr>trace := trace w @ [AgentRun p cwd evs r]\<rparr>))))"
  by (simp add: run_agent_def tick_def split: prod.splits result.splits)

lemma callback_is_log: "\<exists>t. callback_of e job ev = log_line job t"
proof (cases ev)
  case (ToolUse name input)
  show ?thesis unfolding ToolUse callback_of.simps onToolUse_def Let_def
    by (intro exI [of _ "logged (snd (onToolUse e job name input fresh)) ! 0"])
       (simp add: onToolUse_def Let_def log_line_def fresh_def)
next
  case (TextOut t)
  show ?thesis unfolding TextOut by (intro exI [of _ "chomp t"]) (simp add: onText_def)
qed

lemma callbacks_keep:
  "\<exists>more. logged (snd (steps (map (callback_of e job) evs) w)) = logged w @ more
     \<and> cloneDir (snd (steps (map (callback_of e job) evs) w)) = cloneDir w
     \<and> dirs (snd (steps (map (callback_of e job) evs) w)) = dirs w"
proof (induction evs arbitrary: w)
  case Nil
  show ?case by (simp add: ret_def)
next
  case (Cons ev evs)
  obtain t where t: "callback_of e job ev = log_line job t"
    using callback_is_log by blast
  let ?w1 = "snd (log_line job t w)"
  from Cons [of ?w1] obtain more where
    "logged (snd (steps (map (callback_of e job) evs) ?w1)) = logged ?w1 @ more"
    "cloneDir (snd (steps (map (callback_of e job) evs) ?w1)) = cloneDir ?w1"
    "dirs (snd (steps (map (callback_of e job) evs) ?w1)) = dirs ?w1" by blast
  then show ?case
    by (intro exI [of _ "t # more"]) (simp add: t andThen_def bind_def log_line_def)
qed

lemma after_callbacks_simps:
  "trace (after_callbacks e job evs w) = trace w"
  "cloneDir (after_callbacks e job evs w) = cloneDir w"
  "dirs (after_callbacks e job evs w) = dirs w"
  "prefix (logged w) (logged (after_callbacks e job evs w))"
  using callbacks_keep [of e job evs w] steps_trace [of e job evs w]
  by (auto simp: after_callbacks_def)

lemma member_after_callbacks:
  "x \<in> set (logged w) \<Longrightarrow> x \<in> set (logged (after_callbacks e job evs w))"
  using after_callbacks_simps(4) [of w e job evs] by (auto simp: prefix_def)

lemma run_agent_eq2:
  "run_agent e job p cwd w =
     (case agent_at e (length (trace w)) of
        (evs, r) \<Rightarrow>
          (case r of Done out \<Rightarrow> Value out | Failed msg \<Rightarrow> Throw msg,
           after_callbacks e job evs (w\<lparr>trace := trace w @ [AgentRun p cwd evs r]\<rparr>)))"
  by (simp add: run_agent_eq after_callbacks_def)

lemmas eval_simps = bind_def andThen_def ret_def throw_def try_catch_def swallow_def
  exec_def isCancelled_def checkpoint_def logs_eq log_line_def tick_def Let_def
  after_callbacks_simps

lemma check_changes_eq:
  "check_changes e d w = (Value (has_changes e d w), w\<lparr>trace := trace w @ check_new e d w\<rparr>)"
  by (simp add: check_changes_def has_changes_def check_new_def eval_simps split: result.splits)

lemma check_new_counts:
  "count blank_listing (check_new e d w) = (if has_changes e d w then 0 else 1)"
  "count is_agent (check_new e d w) = 0"
  "count is_comment (check_new e d w) = 0"
  by (simp_all add: check_changes_def has_changes_def check_new_def eval_simps split: result.splits)

lemma attempt_facts:
  assumes "agent_attempt e job project l a out w = (r, w1)"
  shows "\<exists>new. trace w1 = trace w @ new
     \<and> count blank_listing new \<le> 1 \<and> count is_agent new \<le> 1
     \<and> ((\<exists>x. r = Value (Again x)) \<longrightarrow>
           count blank_listing new = 1 \<and> a \<le> MAX_RETRY \<and> count is_comment new = 0
           \<and> count is_agent new = 1)
     \<and> ((\<exists>x. r = Value (Break x)) \<longrightarrow> count blank_listing new = 0)
     \<and> (\<forall>x. r = Throw x \<and> count blank_listing new = 1 \<longrightarrow>
           x = no_changes_error \<and> a > MAX_RETRY \<and> exhausted_line \<in> set (logged w1)
           \<and> count is_comment new = (if isDirect job then 0 else 1)
           \<and> count is_agent new = 1)"
proof -
  note defs = agent_attempt_def eval_simps run_agent_eq2 check_changes_eq check_new_counts
    show_nat_2 MAX_RETRY_def exhausted_line_def no_changes_error_def
  let ?t = "length (trace w)"
  obtain evs ar where ag: "agent_at e (Suc ?t) = (evs, ar)" by (cases "agent_at e (Suc ?t)")
  show ?thesis
  proof (cases "status_at e ?t = Found ''cancelled''")
    case True
    with assms show ?thesis by (auto simp: defs)
  next
    case run: False
    show ?thesis
    proof (cases ar)
      case (Failed msg)
      with assms run ag show ?thesis by (cases "a = 1") (auto simp: defs)
    next
      case (Done x)
      show ?thesis
      proof (cases "a = 1")
        case True
        with assms run ag Done show ?thesis
          by (auto simp: defs split: if_splits result.splits)
      next
        case False
        with assms run ag Done show ?thesis
          by (auto simp: defs member_after_callbacks split: if_splits result.splits)
      qed
    qed
  qed
qed

lemma loop_facts:
  assumes "agent_loop e job project l a out w = (r, w1)"
  shows "\<exists>new. trace w1 = trace w @ new
     \<and> count blank_listing new \<le> MAX_RETRY + 2 - a
     \<and> (a \<le> MAX_RETRY + 1 \<and> count blank_listing new = MAX_RETRY + 2 - a \<longrightarrow>
           r = Throw no_changes_error \<and> exhausted_line \<in> set (logged w1)
           \<and> count is_comment new = (if isDirect job then 0 else 1)
           \<and> count is_agent new = MAX_RETRY + 2 - a)"
  using assms
proof (induction "MAX_RETRY + 2 - a" arbitrary: a out w)
  case 0
  then have "\<not> a \<le> MAX_RETRY + 1" by simp
  with 0 show ?case by (simp add: agent_loop.simps)
next
  case (Suc k)
  then have le: "a \<le> MAX_RETRY + 1" and k: "k = MAX_RETRY + 2 - Suc a" by simp_all
  obtain r1 wa where att: "agent_attempt e job project l a out w = (r1, wa)"
    by (cases "agent_attempt e job project l a out w")
  from attempt_facts [OF att] obtain n1 where n1: "trace wa = trace w @ n1"
    "count blank_listing n1 \<le> 1" "count is_agent n1 \<le> 1"
    "(\<exists>x. r1 = Value (Again x)) \<longrightarrow>
       count blank_listing n1 = 1 \<and> a \<le> MAX_RETRY \<and> count is_comment n1 = 0 \<and> count is_agent n1 = 1"
    "(\<exists>x. r1 = Value (Break x)) \<longrightarrow> count blank_listing n1 = 0"
    "\<forall>x. r1 = Throw x \<and> count blank_listing n1 = 1 \<longrightarrow>
       x = no_changes_error \<and> a > MAX_RETRY \<and> exhausted_line \<in> set (logged wa)
       \<and> count is_comment n1 = (if isDirect job then 0 else 1) \<and> count is_agent n1 = 1"
    by blast
  show ?case
  proof (cases r1)
    case (Throw x)
    with Suc.prems att le have res: "r = Throw x" "w1 = wa" by (simp_all add: agent_loop.simps)
    have "MAX_RETRY + 2 - a \<ge> 1" using le by simp
    with n1 Throw res show ?thesis
      by (intro exI [of _ n1]) (auto simp: MAX_RETRY_def)
  next
    case (Value p)
    show ?thesis
    proof (cases p)
      case (Break x)
      with Suc.prems att le Value have res: "r = Value x" "w1 = wa" by (simp_all add: agent_loop.simps)
      from n1(5) Value Break have "count blank_listing n1 = 0" by simp
      with n1(1) res le show ?thesis by (intro exI [of _ n1]) auto
    next
      case (Again x)
      with Suc.prems att le Value have rec: "agent_loop e job project l (Suc a) x wa = (r, w1)"
        by (simp add: agent_loop.simps)
      from n1(4) Value Again have a1: "count blank_listing n1 = 1" "a \<le> MAX_RETRY"
        "count is_comment n1 = 0" "count is_agent n1 = 1" by simp_all
      from Suc.hyps(1) [OF k rec] obtain n2 where n2: "trace w1 = trace wa @ n2"
        "count blank_listing n2 \<le> MAX_RETRY + 2 - Suc a"
        "Suc a \<le> MAX_RETRY + 1 \<and> count blank_listing n2 = MAX_RETRY + 2 - Suc a \<longrightarrow>
           r = Throw no_changes_error \<and> exhausted_line \<in> set (logged w1)
           \<and> count is_comment n2 = (if isDirect job then 0 else 1)
           \<and> count is_agent n2 = MAX_RETRY + 2 - Suc a" by blast
      from n1(1) n2(1) have t: "trace w1 = trace w @ n1 @ n2" by simp
      show ?thesis using t a1 n2(2,3) le
        by (intro exI [of _ "n1 @ n2"]) (auto simp: MAX_RETRY_def)
    qed
  qed
qed

lemma emits_try_block: "emits work_call (try_block e job project fu)"
  unfolding try_block_def
  by (intro emits_rules emits_until_commit [THEN emits_mono] emits_commit_and_push [THEN emits_mono]
        emits_extract_results [THEN emits_mono])
     (auto simp: work_call_def)

lemma work_not_settle: "work_call i \<Longrightarrow> \<not> settle_call i"
  by (cases i) (auto simp: work_call_def early_call_def)

lemma try_block_trace:
  assumes "try_block e job project fu fresh = (r0, w0)"
  shows "list_all work_call (trace w0)"
  using emitsD [OF emits_try_block assms] by (simp add: fresh_def)

text \<open>How a run ends, from the outcome of the \<^verbatim>\<open>try\<close> block.\<close>

lemma run_ends:
  assumes t: "try_block e job project fu fresh = (r0, w0)"
  defines "fin \<equiv> snd (runWorker e job project fu)"
  defines "removal \<equiv> (if given (cloneDir w0)
                        then [Rm (or_else (cloneDir w0) []) (command e (length (trace w0)))] else [])"
  shows "\<exists>reread data ack.
      trace fin = trace w0 @ removal @ reread @ [FinalUpdate data ack]
    \<and> fst (runWorker e job project fu) = Value (fd_status data)
    \<and> (if r0 = Throw ''cancelled'' \<or> (\<exists>res. r0 = Value res \<and> r_status res = ''cancelled'')
        then reread = [] \<and> fd_status data = ''cancelled''
        else \<exists>s. reread = [StatusRead Finalization s]
               \<and> fd_status data =
                    (if s = Found ''cancelled'' then ''cancelled''
                     else case r0 of Value res \<Rightarrow> r_status res | Throw msg \<Rightarrow> ''failed''))
    \<and> (case r0 of Value res \<Rightarrow> fd_artifacts data = Some (arts_of res)
                  | Throw msg \<Rightarrow> if msg = ''cancelled'' then fd_artifacts data = Some (arts_of cancelled_result)
                                  else fd_artifacts data = None)
    \<and> cloneDir fin = cloneDir w0
    \<and> dirs fin = (if given (cloneDir w0) \<and> (\<exists>x. command e (length (trace w0)) = Done x)
                  then dirs w0 - {or_else (cloneDir w0) []} else dirs w0)
    \<and> logged fin = logged w0
         @ (case r0 of Value res \<Rightarrow> []
                     | Throw msg \<Rightarrow> if msg = ''cancelled'' then [] else [[], ''Error: '' @ msg])
         @ (if given (cloneDir w0) \<and> (\<exists>x. command e (length (trace w0)) = Done x)
            then [[], ''Cleaning up workspace...''] else [])"
proof (cases r0)
  case (Value res)
  show ?thesis
  proof (cases "r_status res = ''cancelled''")
    case True
    from then_handler_cancelled [OF True, where e = e and job = job and w = "cleaned e job w0"] Value t True
    show ?thesis
      unfolding fin_def removal_def
      by (simp add: runWorker_eq cleaned_trace cleaned_cloneDir cleaned_dirs cleaned_logged)
  next
    case False
    from then_handler_reread [OF False, where e = e and job = job and w = "cleaned e job w0"] Value t False
    show ?thesis
      unfolding fin_def removal_def
      by (simp add: runWorker_eq cleaned_trace cleaned_cloneDir cleaned_dirs cleaned_logged
            Let_def)
  qed
next
  case (Throw msg)
  show ?thesis
  proof (cases "msg = ''cancelled''")
    case True
    have c: "r_status cancelled_result = ''cancelled''" by (simp add: cancelled_result_def)
    from then_handler_cancelled [OF c, where e = e and job = job and w = "cleaned e job w0"] Throw t True
    show ?thesis
      unfolding fin_def removal_def
      by (simp add: runWorker_eq cleaned_trace cleaned_cloneDir cleaned_dirs cleaned_logged)
  next
    case False
    from catch_handler_reread [where e = e and job = job and msg = msg and w = "cleaned e job (noted job msg w0)"] Throw t False
    show ?thesis
      unfolding fin_def removal_def
      by (simp add: runWorker_eq cleaned_trace cleaned_cloneDir cleaned_dirs cleaned_logged
            noted_simps Let_def)
  qed
qed

lemma early_not_publish: "early_call i \<Longrightarrow> \<not> is_publish i"
  by (cases i) (auto simp: early_call_def)

lemma settle_not_publish: "settle_call i \<Longrightarrow> \<not> is_publish i"
  by (cases i) auto

lemma publish_push: "is_push i \<Longrightarrow> is_publish i"
  by (cases i) auto

lemma early_not_commit: "early_call i \<Longrightarrow> \<not> commit_call i"
  by (cases i) (auto simp: early_call_def)

lemma commit_quiet: "commit_call i \<Longrightarrow> no_checkpoint i"
  by (cases i) auto

lemma chk_try_block: "chk (try_block e job project fu)"
  unfolding try_block_def
  by (intro chk_rules chk_until_commit
        emits_commit_and_push [THEN emits_mono, THEN chk_emits, OF commit_quiet]
        emits_extract_results [THEN emits_mono, THEN chk_emits, OF commit_quiet])

text \<open>The two ways in which the \<^verbatim>\<open>try\<close> block ends: before stage 5, or in it.\<close>

lemma try_block_cases:
  assumes "try_block e job project fu w = (r0, w0)"
  obtains (early) x where "until_commit e job project fu w = (Throw x, w0)" "r0 = Throw x"
  | (late) l out w1 where "until_commit e job project fu w = (Value (l, out), w1)"
      "andThen (commit_and_push e job project l) (extract_results e job l out) w1 = (r0, w0)"
proof (cases "until_commit e job project fu w")
  case (Pair r1 w1)
  show thesis
  proof (cases r1)
    case (Throw x)
    with Pair assms show thesis by (intro early [of x]) (simp_all add: try_block_def bind_def)
  next
    case (Value p)
    obtain l out where p: "p = (l, out)" by (cases p)
    with Pair Value assms show thesis by (intro late [of l out w1]) (simp_all add: try_block_def bind_def)
  qed
qed

lemma commit_guard:
  assumes "commit_and_push e job project l w = (r, w1)"
  shows "\<exists>rest. trace w1 = trace w @ Exec ''git'' [''branch'', ''--show-current''] (Some (l_dir l))
                                       (command e (length (trace w))) # rest
     \<and> list_all is_publish rest
     \<and> ((\<exists>x. command e (length (trace w)) = Done x \<and> trim x = p_baseBranch project)
          \<longrightarrow> rest = [] \<and> r = Throw (fatal_error project))
     \<and> (r = Value () \<longrightarrow> (\<exists>x. command e (length (trace w)) = Done x \<and> trim x \<noteq> p_baseBranch project))"
  using assms unfolding commit_and_push_def
  by (simp add: eval_simps fatal_error_def split: result.splits if_splits) auto

lemma emits_extract_diff: "emits is_last_diff (extract_results e job l out)"
  unfolding extract_results_def by (intro emits_rules) simp_all


end
